theory Spec2Isabelle
  imports Main "HOL-Library.Multiset"
begin

section \<open>Python values reaching the paginator\<close>

text \<open>
  A \<^verbatim>\<open>str\<close> is a sequence of code points. \<open>ustr\<close> reads a literal of this theory
  as the \<^verbatim>\<open>str\<close> with the same characters.
\<close>

type_synonym py_str = "nat list"

definition ustr :: "string \<Rightarrow> py_str" where
  "ustr s = map of_char s"

text \<open>
  What the builtin \<^verbatim>\<open>int()\<close> takes from the interpreter it runs in: the decimal digit
  value that the interpreter's Unicode database gives a code point
  (\<^verbatim>\<open>Py_UNICODE_TODECIMAL\<close>; \<open>None\<close> for a code point that is not a decimal digit),
  and the digit cap \<^verbatim>\<open>sys.get_int_max_str_digits()\<close> (0 when the cap is switched off,
  and for an interpreter that has none). Both depend on the interpreter's version and
  settings, which are not part of the repository, so they are carried as data.
\<close>

record interpreter =
  unicode_decimal :: "nat \<Rightarrow> nat option"
  int_max_str_digits :: nat

text \<open>
  \<^verbatim>\<open>request.GET.get('page')\<close> is \<^verbatim>\<open>None\<close> when the query string has no
  \<^verbatim>\<open>page\<close> key and a \<^verbatim>\<open>str\<close> otherwise; the paginator itself calls
  \<^verbatim>\<open>page\<close> with an \<^verbatim>\<open>int\<close>. These are the three shapes of value that the
  builtin \<^verbatim>\<open>int()\<close> sees. A \<^verbatim>\<open>str\<close> object comes with the interpreter it lives
  in.
\<close>

datatype py_value = PyNone | PyStr interpreter py_str | PyInt int

datatype py_error = TypeError | ValueError

text \<open>
  The builtin \<^verbatim>\<open>int(s)\<close> on a \<^verbatim>\<open>str\<close>, base 10, in its two steps. First the
  text is brought to ASCII: a code point below 128 stays, a white-space code point from
  128 on becomes a blank, a decimal digit from 128 on becomes its ASCII digit, and any
  other code point becomes a question mark, which no number contains. Then the ASCII
  text is read: the ASCII white space (code points 9 to 13 and 32) around it is skipped,
  one sign is allowed, the digits may be grouped by single underscores, and nothing
  else may follow. A text of more than 640 digits is refused when the cap of the
  interpreter is set and smaller than the digit count.
\<close>

definition unicode_isspace :: "nat \<Rightarrow> bool" where
  "unicode_isspace c =
     (c = 133 \<or> c = 160 \<or> c = 5760 \<or> (8192 \<le> c \<and> c \<le> 8202) \<or> c = 8232 \<or> c = 8233 \<or>
      c = 8239 \<or> c = 8287 \<or> c = 12288)"

definition to_ascii :: "interpreter \<Rightarrow> nat \<Rightarrow> nat" where
  "to_ascii py c =
     (if c < 128 then c
      else if unicode_isspace c then 32
      else (case unicode_decimal py c of
              None \<Rightarrow> 63
            | Some d \<Rightarrow> if d < 10 then 48 + d else 63))"

definition py_isspace :: "nat \<Rightarrow> bool" where
  "py_isspace c = (c = 32 \<or> (9 \<le> c \<and> c \<le> 13))"

definition digit_val :: "nat \<Rightarrow> nat option" where
  "digit_val c = (if 48 \<le> c \<and> c \<le> 57 then Some (c - 48) else None)"

definition py_strip :: "py_str \<Rightarrow> py_str" where
  "py_strip s = rev (dropWhile py_isspace (rev (dropWhile py_isspace s)))"

fun py_digits :: "int \<Rightarrow> bool \<Rightarrow> py_str \<Rightarrow> int option" where
  "py_digits acc prev [] = (if prev then Some acc else None)"
| "py_digits acc prev (c # cs) =
     (if c = 95 then (if prev \<and> cs \<noteq> [] then py_digits acc False cs else None)
      else (case digit_val c of
              None \<Rightarrow> None
            | Some d \<Rightarrow> py_digits (acc * 10 + int d) True cs))"

definition digit_count :: "py_str \<Rightarrow> nat" where
  "digit_count s = length (filter (\<lambda>c. c \<noteq> 95) s)"

definition py_int_str :: "interpreter \<Rightarrow> py_str \<Rightarrow> py_error + int" where
  "py_int_str py s =
     (case py_strip (map (to_ascii py) s) of
        [] \<Rightarrow> Inl ValueError
      | c # cs \<Rightarrow>
          (let body = (if c = 45 \<or> c = 43 then cs else c # cs) in
           case py_digits 0 False body of
             None \<Rightarrow> Inl ValueError
           | Some n \<Rightarrow>
               if 640 < digit_count body \<and> 0 < int_max_str_digits py \<and>
                  int_max_str_digits py < digit_count body
               then Inl ValueError
               else Inr (if c = 45 then - n else n)))"

fun py_int :: "py_value \<Rightarrow> py_error + int" where
  "py_int PyNone = Inl TypeError"
| "py_int (PyStr py s) = py_int_str py s"
| "py_int (PyInt n) = Inr n"

text \<open>
  A slice \<^verbatim>\<open>xs[b:t]\<close> with Python's rules: a negative bound counts from the end,
  every bound is clipped to the list, and an empty range gives the empty list.
\<close>

definition py_bound :: "nat \<Rightarrow> int \<Rightarrow> nat" where
  "py_bound len i = (if i < 0 then nat (max (i + int len) 0) else min (nat i) len)"

definition py_slice :: "'a list \<Rightarrow> int \<Rightarrow> int \<Rightarrow> 'a list" where
  "py_slice xs b t =
     (let lo = py_bound (length xs) b; hi = py_bound (length xs) t
      in take (hi - lo) (drop lo xs))"

section \<open>The library paginator used by \<^verbatim>\<open>get_page_obj\<close>\<close>

text \<open>
  \<^verbatim>\<open>django.core.paginator.Paginator\<close> as \<^verbatim>\<open>posts/utils/paginator.py\<close> uses it:
  the constructor with its defaults (\<^verbatim>\<open>orphans=0\<close>,
  \<^verbatim>\<open>allow_empty_first_page=True\<close>), \<^verbatim>\<open>count\<close>, \<^verbatim>\<open>num_pages\<close>,
  \<^verbatim>\<open>validate_number\<close>, \<^verbatim>\<open>page\<close> and \<^verbatim>\<open>get_page\<close>. The two exceptions of
  the module are the values of \<open>page_exc\<close>.
\<close>

datatype page_exc = PageNotAnInteger | EmptyPage

record 'a paginator =
  object_list :: "'a list"
  per_page :: int
  orphans :: int
  allow_empty_first_page :: bool

record 'a page =
  page_object_list :: "'a list"
  number :: int
  page_paginator :: "'a paginator"

definition Paginator :: "'a list \<Rightarrow> int \<Rightarrow> 'a paginator" where
  "Paginator ol pp =
     \<lparr>object_list = ol, per_page = pp, orphans = 0, allow_empty_first_page = True\<rparr>"

definition count :: "'a paginator \<Rightarrow> int" where
  "count p = int (length (object_list p))"

text \<open>
  \<^verbatim>\<open>ceil(hits / self.per_page)\<close> for a positive page size, written with integer
  division. The only caller passes the constant page size 10.
\<close>

definition num_pages :: "'a paginator \<Rightarrow> int" where
  "num_pages p =
     (if count p = 0 \<and> \<not> allow_empty_first_page p then 0
      else (let hits = max 1 (count p - orphans p)
            in (hits + per_page p - 1) div per_page p))"

definition validate_number :: "'a paginator \<Rightarrow> py_value \<Rightarrow> page_exc + int" where
  "validate_number p v =
     (case py_int v of
        Inl e \<Rightarrow> Inl PageNotAnInteger
      | Inr n \<Rightarrow>
          if n < 1 then Inl EmptyPage
          else if n > num_pages p then
            (if n = 1 \<and> allow_empty_first_page p then Inr n else Inl EmptyPage)
          else Inr n)"

definition page :: "'a paginator \<Rightarrow> py_value \<Rightarrow> page_exc + 'a page" where
  "page p v =
     (case validate_number p v of
        Inl e \<Rightarrow> Inl e
      | Inr n \<Rightarrow>
          (let bottom = (n - 1) * per_page p;
               top = bottom + per_page p;
               top' = (if top + orphans p \<ge> count p then count p else top)
           in Inr \<lparr>page_object_list = py_slice (object_list p) bottom top',
                    number = n, page_paginator = p\<rparr>))"

definition get_page :: "'a paginator \<Rightarrow> py_value \<Rightarrow> page_exc + 'a page" where
  "get_page p v =
     (let n = (case validate_number p v of
                 Inl PageNotAnInteger \<Rightarrow> 1
               | Inl EmptyPage \<Rightarrow> num_pages p
               | Inr k \<Rightarrow> k)
      in page p (PyInt n))"

text \<open>\<^verbatim>\<open>Page.has_next\<close>, \<^verbatim>\<open>Page.has_previous\<close> and \<^verbatim>\<open>len(page)\<close>.\<close>

definition has_next :: "'a page \<Rightarrow> bool" where
  "has_next pg = (number pg < num_pages (page_paginator pg))"

definition has_previous :: "'a page \<Rightarrow> bool" where
  "has_previous pg = (number pg > 1)"

definition page_len :: "'a page \<Rightarrow> nat" where
  "page_len pg = length (page_object_list pg)"

section \<open>\<^verbatim>\<open>posts/utils/paginator.py\<close>\<close>

text \<open>
  A request as the views and \<^verbatim>\<open>get_page_obj\<close> read it: the method, the path, the
  query dictionaries \<^verbatim>\<open>request.GET\<close> and \<^verbatim>\<open>request.POST\<close>, the uploaded files,
  the logged-in user (\<open>None\<close> for an anonymous client) and the interpreter that
  serves the request. \<^verbatim>\<open>.get('page')\<close> on a query dictionary is \<^verbatim>\<open>None\<close> for a
  missing key.
\<close>

type_synonym query_params = "string \<rightharpoonup> py_str"

type_synonym query_dict = "string \<rightharpoonup> string"

datatype http_method = HttpGet | HttpPost

record uploaded_file =
  file_name :: string
  is_image :: bool

record User =
  user_id :: nat
  username :: string

record request =
  req_method :: http_method
  path :: string
  GET :: query_params
  POST :: query_dict
  FILES :: "string \<rightharpoonup> uploaded_file"
  user :: "User option"
  interp :: interpreter

definition POSTS_PER_PAGE :: int where
  "POSTS_PER_PAGE = 10"

definition query_get :: "interpreter \<Rightarrow> query_params \<Rightarrow> string \<Rightarrow> py_value" where
  "query_get py q k = (case q k of None \<Rightarrow> PyNone | Some s \<Rightarrow> PyStr py s)"

definition get_page_obj :: "request \<Rightarrow> 'a list \<Rightarrow> page_exc + 'a page" where
  "get_page_obj request queryset =
     (let paginator = Paginator queryset POSTS_PER_PAGE;
          page_number = query_get (interp request) (GET request) ''page''
      in get_page paginator page_number)"

section \<open>The model state written by the migrations\<close>

text \<open>
  A migration is a list of operations on the project state: for every model its fields
  and its \<^verbatim>\<open>Meta\<close> options. The operations of the three migration files are
  \<^verbatim>\<open>AlterModelOptions\<close> and \<^verbatim>\<open>AlterField\<close>. Of the options only
  \<^verbatim>\<open>ordering\<close> is kept, and of a field its kind, \<^verbatim>\<open>max_length\<close>,
  \<^verbatim>\<open>blank\<close>, \<^verbatim>\<open>null\<close>, \<^verbatim>\<open>on_delete\<close> and \<^verbatim>\<open>to\<close>; the labels
  (\<^verbatim>\<open>verbose_name\<close>, \<^verbatim>\<open>verbose_name_plural\<close>, \<^verbatim>\<open>help_text\<close>) are
  display text that no operation below reads, and are left out.
\<close>

datatype on_delete = CASCADE | PROTECT | SET_NULL | SET_DEFAULT | DO_NOTHING

datatype field =
    CharField nat
  | TextField
  | ForeignKey bool bool on_delete string

record model_state =
  model_fields :: "string \<rightharpoonup> field"
  ordering :: "string list"

type_synonym project_state = "string \<rightharpoonup> model_state"

datatype operation =
    AlterModelOptions string "string list option"
  | AlterField string string field

text \<open>
  \<^verbatim>\<open>state_forwards\<close> of the two operations. Both look the model up and fail when it
  is missing (\<open>None\<close>). \<^verbatim>\<open>AlterModelOptions\<close> replaces the options it is given and
  drops every alterable option it is not given, so an operation without
  \<^verbatim>\<open>ordering\<close> clears it. \<^verbatim>\<open>AlterField\<close> replaces the field of that name and
  leaves a model without such a field as it is.
\<close>

fun state_forwards :: "operation \<Rightarrow> project_state \<Rightarrow> project_state option" where
  "state_forwards (AlterModelOptions name opt) st =
     (case st name of
        None \<Rightarrow> None
      | Some m \<Rightarrow> Some (st(name \<mapsto> m\<lparr>ordering := (case opt of None \<Rightarrow> [] | Some ord \<Rightarrow> ord)\<rparr>)))"
| "state_forwards (AlterField model_name name f) st =
     (case st model_name of
        None \<Rightarrow> None
      | Some m \<Rightarrow>
          Some (st(model_name \<mapsto>
            (if model_fields m name \<noteq> None then m\<lparr>model_fields := (model_fields m)(name \<mapsto> f)\<rparr> else m))))"

fun apply_operations :: "operation list \<Rightarrow> project_state \<Rightarrow> project_state option" where
  "apply_operations [] st = Some st"
| "apply_operations (op # ops) st =
     (case state_forwards op st of None \<Rightarrow> None | Some st' \<Rightarrow> apply_operations ops st')"

text \<open>\<^verbatim>\<open>posts/migrations/0003_auto_20220913_1814.py\<close>\<close>

definition migration_0003 :: "operation list" where
  "migration_0003 =
     [AlterModelOptions ''post'' (Some [''-pub_date'']),
      AlterField ''group'' ''title'' (CharField 200),
      AlterField ''post'' ''group'' (ForeignKey True True SET_NULL ''posts.Group'')]"

text \<open>\<^verbatim>\<open>posts/migrations/0004_auto_20221006_2021.py\<close>\<close>

definition migration_0004 :: "operation list" where
  "migration_0004 =
     [AlterField ''post'' ''group'' (ForeignKey True True SET_NULL ''posts.Group''),
      AlterField ''post'' ''text'' TextField]"

text \<open>\<^verbatim>\<open>posts/migrations/0010_auto_20221025_1210.py\<close>\<close>

definition migration_0010 :: "operation list" where
  "migration_0010 =
     [AlterModelOptions ''comment'' None,
      AlterModelOptions ''group'' None,
      AlterField ''comment'' ''text'' TextField]"

section \<open>Rows and tables\<close>

text \<open>
  The rows the tests create through \<^verbatim>\<open>Post.objects.create\<close>,
  \<^verbatim>\<open>Group.objects.create\<close>, \<^verbatim>\<open>Comment.objects.create\<close>,
  \<^verbatim>\<open>Follow.objects.create\<close> and \<^verbatim>\<open>User.objects.create_user\<close>. A foreign key
  holds the id of the row it points to; \<open>pub_date\<close> is a time stamp; an empty
  \<open>image\<close> is a post without a picture.
\<close>

record Group =
  group_id :: nat
  title :: string
  slug :: string
  description :: string

record Post =
  post_id :: nat
  post_text :: string
  pub_date :: int
  author :: nat
  post_group :: "nat option"
  image :: string

record Comment =
  comment_id :: nat
  comment_post :: nat
  comment_author :: nat
  comment_text :: string

record Follow =
  follow_user :: nat
  follow_author :: nat

record db =
  users :: "User list"
  groups :: "Group list"
  posts :: "Post list"
  comments :: "Comment list"
  follows :: "Follow list"

datatype db_error = FieldError | ProtectedError | IntegrityError

section \<open>Deleting a group under the migrated schema\<close>

text \<open>
  \<^verbatim>\<open>Group.delete()\<close> collects the rows that point to the group and treats them as
  the \<^verbatim>\<open>on_delete\<close> of the foreign key \<^verbatim>\<open>post.group\<close> in the project state says:
  \<^verbatim>\<open>CASCADE\<close> deletes the posts (and the comments on them), \<^verbatim>\<open>SET_NULL\<close> and
  \<^verbatim>\<open>SET_DEFAULT\<close> (the field declares no default) store null, \<^verbatim>\<open>PROTECT\<close>
  refuses when a post points to the group, and \<^verbatim>\<open>DO_NOTHING\<close> leaves the posts to
  the database, which refuses a dangling reference.
\<close>

definition post_group_field :: "project_state \<Rightarrow> field option" where
  "post_group_field st = (case st ''post'' of None \<Rightarrow> None | Some m \<Rightarrow> model_fields m ''group'')"

definition remove_group :: "nat \<Rightarrow> db \<Rightarrow> db" where
  "remove_group gid d = d\<lparr>groups := filter (\<lambda>g. group_id g \<noteq> gid) (groups d)\<rparr>"

definition set_group_null :: "nat \<Rightarrow> Post \<Rightarrow> Post" where
  "set_group_null gid p = (if post_group p = Some gid then p\<lparr>post_group := None\<rparr> else p)"

definition cascade_posts :: "(Post \<Rightarrow> bool) \<Rightarrow> db \<Rightarrow> db" where
  "cascade_posts doomed d =
     (let gone = map post_id (filter doomed (posts d))
      in d\<lparr>posts := filter (\<lambda>p. \<not> doomed p) (posts d),
            comments := filter (\<lambda>c. comment_post c \<notin> set gone) (comments d)\<rparr>)"

definition delete_group :: "project_state \<Rightarrow> nat \<Rightarrow> db \<Rightarrow> db_error + db" where
  "delete_group st gid d =
     (case post_group_field st of
        Some (ForeignKey blank null od to) \<Rightarrow>
          (let related = filter (\<lambda>p. post_group p = Some gid) (posts d) in
           case od of
             CASCADE \<Rightarrow> Inr (remove_group gid (cascade_posts (\<lambda>p. post_group p = Some gid) d))
           | SET_NULL \<Rightarrow> Inr (remove_group gid (d\<lparr>posts := map (set_group_null gid) (posts d)\<rparr>))
           | SET_DEFAULT \<Rightarrow> Inr (remove_group gid (d\<lparr>posts := map (set_group_null gid) (posts d)\<rparr>))
           | PROTECT \<Rightarrow> if related = [] then Inr (remove_group gid d) else Inl ProtectedError
           | DO_NOTHING \<Rightarrow> if related = [] then Inr (remove_group gid d) else Inl IntegrityError)
      | _ \<Rightarrow> Inl FieldError)"

section \<open>The default ordering of a query\<close>

text \<open>
  A query without \<^verbatim>\<open>order_by\<close> is sorted by \<^verbatim>\<open>Meta.ordering\<close> of the model
  state. A term of the ordering is a field name, with a leading \<^verbatim>\<open>-\<close> for descending
  order; the first term is the most significant. The sort terms read here are the
  numeric columns \<^verbatim>\<open>pub_date\<close>, \<^verbatim>\<open>id\<close> (\<^verbatim>\<open>pk\<close>) and \<^verbatim>\<open>author\<close>; any other
  name is answered with \<open>FieldError\<close>. Rows with equal keys stay in table order.
\<close>

definition post_order_key :: "string \<Rightarrow> (Post \<Rightarrow> int) option" where
  "post_order_key f =
     (if f = ''pub_date'' then Some pub_date
      else if f = ''id'' \<or> f = ''pk'' then Some (\<lambda>p. int (post_id p))
      else if f = ''author'' then Some (\<lambda>p. int (author p))
      else None)"

definition order_term :: "string \<Rightarrow> (Post \<Rightarrow> int) option" where
  "order_term t =
     (case t of
        [] \<Rightarrow> None
      | c # f \<Rightarrow>
          if c = CHR ''-'' then map_option (\<lambda>k p. - k p) (post_order_key f)
          else post_order_key (c # f))"

fun order_by :: "string list \<Rightarrow> Post list \<Rightarrow> db_error + Post list" where
  "order_by [] rows = Inr rows"
| "order_by (t # ts) rows =
     (case order_term t of
        None \<Rightarrow> Inl FieldError
      | Some k \<Rightarrow>
          (case order_by ts rows of
             Inl e \<Rightarrow> Inl e
           | Inr rs \<Rightarrow> Inr (sort_key k rs)))"

definition Post_objects_all :: "project_state \<Rightarrow> db \<Rightarrow> db_error + Post list" where
  "Post_objects_all st d =
     (case st ''post'' of
        None \<Rightarrow> Inl FieldError
      | Some m \<Rightarrow> order_by (ordering m) (posts d))"

section \<open>Routes, responses and the application state\<close>

text \<open>Decimal digits of a number, as \<^verbatim>\<open>str(n)\<close> writes a row id into a URL.\<close>

fun str_nat :: "nat \<Rightarrow> string" where
  "str_nat n =
     (if n < 10 then [char_of (48 + n)]
      else str_nat (n div 10) @ [char_of (48 + n mod 10)])"

text \<open>
  Modelled from the spec: the URL table (\<^verbatim>\<open>posts/urls.py\<close> and \<^verbatim>\<open>users/urls.py\<close> are not
  among the sources). The route names are the ones the views and the tests pass to
  \<^verbatim>\<open>reverse\<close>; the paths are those of the spec's route list and of the literal paths in
  \<^verbatim>\<open>posts/tests/test_urls.py\<close>. An unknown name or a wrong argument count is
  \<^verbatim>\<open>NoReverseMatch\<close> (\<open>None\<close>).
\<close>

definition reverse :: "string \<Rightarrow> string list \<Rightarrow> string option" where
  "reverse name args =
     (if name = ''posts:index'' \<and> args = [] then Some ''/''
      else if name = ''posts:post_create'' \<and> args = [] then Some ''/create/''
      else if name = ''posts:follow_index'' \<and> args = [] then Some ''/follow/''
      else if name = ''posts:group_list'' \<and> length args = 1
        then Some (''/group/'' @ hd args @ ''/'')
      else if name = ''posts:profile'' \<and> length args = 1
        then Some (''/profile/'' @ hd args @ ''/'')
      else if name = ''posts:post_detail'' \<and> length args = 1
        then Some (''/posts/'' @ hd args @ ''/'')
      else if name = ''posts:post_edit'' \<and> length args = 1
        then Some (''/posts/'' @ hd args @ ''/edit/'')
      else if name = ''posts:add_comment'' \<and> length args = 1
        then Some (''/posts/'' @ hd args @ ''/comment/'')
      else None)"

text \<open>
  Modelled from the spec: the login route (the settings module is not among the sources);
  the path is the one \<^verbatim>\<open>test_post_create_redirect_anonymous\<close> expects.
\<close>

definition LOGIN_URL :: string where
  "LOGIN_URL = ''/auth/login/''"

text \<open>
  What a view returns: a redirect, a rendered page of posts (template name, the
  \<^verbatim>\<open>page_obj\<close> of the context and the rendered content), a rendered form (template
  name, the post the form is bound to, the names of the fields with errors), a 404, or
  the 500 of an exception that no view catches.
\<close>

record content =
  shown :: "Post list"
  page_no :: int
  page_count :: int

datatype response =
    HttpResponseRedirect string
  | PageResponse string "Post page" content
  | FormResponse string "Post option" "string list"
  | HttpResponseNotFound
  | HttpResponseServerError

text \<open>
  The state a request runs against: the tables, the page cache (an entry is the content
  and the time it expires at), the clock in seconds, and the next post id.
\<close>

record state =
  database :: db
  cache :: "(string \<times> py_str option) \<rightharpoonup> (content \<times> int)"
  clock :: int
  next_post_id :: nat

section \<open>\<^verbatim>\<open>users/forms.py\<close> and \<^verbatim>\<open>users/views.py\<close>\<close>

text \<open>
  A model form as a view uses it: \<^verbatim>\<open>is_valid()\<close>, given by the names of the fields
  in error (valid when there is none), and \<^verbatim>\<open>save()\<close>; both read the tables and the
  submitted data.
\<close>

record model_form =
  form_errors :: "db \<Rightarrow> query_dict \<Rightarrow> string list"
  form_save :: "db \<Rightarrow> query_dict \<Rightarrow> db"

text \<open>
  \<^verbatim>\<open>class CreationForm(UserCreationForm)\<close> sets \<^verbatim>\<open>Meta.model\<close>, \<^verbatim>\<open>Meta.fields\<close>
  and two help texts, which are display text. What the form accepts and what it saves
  is decided by the library class \<^verbatim>\<open>UserCreationForm\<close> and by the password validators
  of the settings module, neither of which is among the sources; the library class,
  as a function of the field list, is a parameter.
\<close>

definition CreationForm_fields :: "string list" where
  "CreationForm_fields = [''first_name'', ''last_name'', ''username'', ''email'']"

definition CreationForm :: "(string list \<Rightarrow> model_form) \<Rightarrow> model_form" where
  "CreationForm UserCreationForm = UserCreationForm CreationForm_fields"

definition form_value :: "query_dict \<Rightarrow> string \<Rightarrow> string" where
  "form_value data k = (case data k of None \<Rightarrow> [] | Some v \<Rightarrow> v)"

text \<open>
  \<^verbatim>\<open>class SignUp(CreateView)\<close> with its three attributes. The library view renders
  the empty form on GET; on POST it validates the form, and either saves it and redirects
  to \<^verbatim>\<open>success_url\<close> or renders the form with its errors. \<^verbatim>\<open>reverse_lazy\<close> is
  resolved when the redirect is built.
\<close>

definition SignUp_success_url :: "string option" where
  "SignUp_success_url = reverse ''posts:index'' []"

definition SignUp_template_name :: string where
  "SignUp_template_name = ''users/signup.html''"

definition SignUp ::
  "(string list \<Rightarrow> model_form) \<Rightarrow> state \<Rightarrow> request \<Rightarrow> state \<times> response" where
  "SignUp UserCreationForm s r =
     (let form_class = CreationForm UserCreationForm in
      case req_method r of
        HttpGet \<Rightarrow> (s, FormResponse SignUp_template_name None [])
      | HttpPost \<Rightarrow>
          (case form_errors form_class (database s) (POST r) of
             [] \<Rightarrow>
               (let s' = s\<lparr>database := form_save form_class (database s) (POST r)\<rparr>
                in case SignUp_success_url of
                     Some url \<Rightarrow> (s', HttpResponseRedirect url)
                   | None \<Rightarrow> (s', HttpResponseServerError))
           | e # es \<Rightarrow> (s, FormResponse SignUp_template_name None (e # es))))"

section \<open>The views of the posts application\<close>

text \<open>
  Modelled from the spec: the default order of a post query, newest first
  (\<^verbatim>\<open>posts/models.py\<close> is not among the sources).
\<close>

definition newest_first :: "Post list \<Rightarrow> Post list" where
  "newest_first ps = sort_key (\<lambda>p. - pub_date p) ps"

text \<open>
  Modelled from the spec: the login check in front of a protected view
  (\<^verbatim>\<open>posts/views.py\<close> is not among the sources). An anonymous client is redirected to
  the login page with the requested path as \<^verbatim>\<open>next\<close>.
\<close>

definition login_required ::
  "(User \<Rightarrow> state \<Rightarrow> request \<Rightarrow> state \<times> response) \<Rightarrow> state \<Rightarrow> request \<Rightarrow> state \<times> response"
  where
  "login_required view s r =
     (case user r of
        None \<Rightarrow> (s, HttpResponseRedirect (LOGIN_URL @ ''?next='' @ path r))
      | Some u \<Rightarrow> view u s r)"

text \<open>
  Modelled from the spec: the post form (\<^verbatim>\<open>posts/forms.py\<close> is not among the sources).
  The text is required; the group is optional and, when given, is the id of a group; the
  image is optional and, when given, is an image. A valid form gives the text, the group
  and the stored image path, which the tests read as \<^verbatim>\<open>posts/\<close> and the file name.
\<close>

definition PostForm_clean ::
  "db \<Rightarrow> request \<Rightarrow> string list + (string \<times> nat option \<times> string)" where
  "PostForm_clean d r =
     (let t = form_value (POST r) ''text'';
          g = form_value (POST r) ''group'';
          gid = (case py_int_str (interp r) (ustr g) of Inl e \<Rightarrow> None | Inr n \<Rightarrow> Some n);
          errs =
            (if t = [] then [''text''] else []) @
            (if g = [] then []
             else (case gid of
                     None \<Rightarrow> [''group'']
                   | Some n \<Rightarrow>
                       if 0 \<le> n \<and> (\<exists>x \<in> set (groups d). group_id x = nat n) then []
                       else [''group''])) @
            (case FILES r ''image'' of
               None \<Rightarrow> []
             | Some f \<Rightarrow> if is_image f then [] else [''image''])
      in if errs = [] then
           Inr (t,
                (if g = [] then None else map_option nat gid),
                (case FILES r ''image'' of None \<Rightarrow> [] | Some f \<Rightarrow> ''posts/'' @ file_name f))
         else Inl errs)"

text \<open>
  Modelled from the spec: the view \<^verbatim>\<open>post_create\<close> (\<^verbatim>\<open>posts/views.py\<close> is not among
  the sources). A valid form submitted by a logged-in user stores a new post of that
  user and redirects to the user's profile; anything else renders the form.
\<close>

definition post_create_view :: "User \<Rightarrow> state \<Rightarrow> request \<Rightarrow> state \<times> response" where
  "post_create_view u s r =
     (case req_method r of
        HttpGet \<Rightarrow> (s, FormResponse ''posts/create_post.html'' None [])
      | HttpPost \<Rightarrow>
          (case PostForm_clean (database s) r of
             Inl errs \<Rightarrow> (s, FormResponse ''posts/create_post.html'' None errs)
           | Inr (t, g, img) \<Rightarrow>
               (let p = \<lparr>post_id = next_post_id s, post_text = t, pub_date = clock s,
                         author = user_id u, post_group = g, image = img\<rparr>;
                    s' = s\<lparr>database := (database s)\<lparr>posts := posts (database s) @ [p]\<rparr>,
                           next_post_id := Suc (next_post_id s)\<rparr>
                in case reverse ''posts:profile'' [username u] of
                     Some url \<Rightarrow> (s', HttpResponseRedirect url)
                   | None \<Rightarrow> (s', HttpResponseServerError))))"

definition post_create :: "state \<Rightarrow> request \<Rightarrow> state \<times> response" where
  "post_create = login_required post_create_view"

text \<open>
  Modelled from the spec: the view \<^verbatim>\<open>post_edit\<close> (\<^verbatim>\<open>posts/views.py\<close> is not among
  the sources). An unknown post is a 404. A logged-in user who is not the author is
  redirected to the detail page of the post. The author gets the form bound to the post;
  a valid submission changes the post and redirects to its detail page.
\<close>

definition post_edit_view :: "nat \<Rightarrow> User \<Rightarrow> state \<Rightarrow> request \<Rightarrow> state \<times> response" where
  "post_edit_view pid u s r =
     (case find (\<lambda>p. post_id p = pid) (posts (database s)) of
        None \<Rightarrow> (s, HttpResponseNotFound)
      | Some p \<Rightarrow>
          (case reverse ''posts:post_detail'' [str_nat pid] of
             None \<Rightarrow> (s, HttpResponseServerError)
           | Some detail \<Rightarrow>
               if author p \<noteq> user_id u then (s, HttpResponseRedirect detail)
               else
                 (case req_method r of
                    HttpGet \<Rightarrow> (s, FormResponse ''posts/create_post.html'' (Some p) [])
                  | HttpPost \<Rightarrow>
                      (case PostForm_clean (database s) r of
                         Inl errs \<Rightarrow> (s, FormResponse ''posts/create_post.html'' (Some p) errs)
                       | Inr (t, g, img) \<Rightarrow>
                           (let p' = p\<lparr>post_text := t, post_group := g,
                                       image := (if img = [] then image p else img)\<rparr>
                            in (s\<lparr>database := (database s)\<lparr>posts :=
                                   map (\<lambda>q. if post_id q = pid then p' else q)
                                     (posts (database s))\<rparr>\<rparr>,
                                HttpResponseRedirect detail))))))"

definition post_edit :: "nat \<Rightarrow> state \<Rightarrow> request \<Rightarrow> state \<times> response" where
  "post_edit pid = login_required (post_edit_view pid)"

text \<open>
  Modelled from the spec: the query results of the four listing views
  (\<^verbatim>\<open>posts/views.py\<close> is not among the sources): every post, the posts of a group,
  the posts of an author, and the posts of the authors a user follows, each in the
  default order.
\<close>

definition index_queryset :: "db \<Rightarrow> Post list" where
  "index_queryset d = newest_first (posts d)"

definition group_queryset :: "db \<Rightarrow> nat \<Rightarrow> Post list" where
  "group_queryset d gid = filter (\<lambda>p. post_group p = Some gid) (newest_first (posts d))"

definition profile_queryset :: "db \<Rightarrow> nat \<Rightarrow> Post list" where
  "profile_queryset d uid = filter (\<lambda>p. author p = uid) (newest_first (posts d))"

definition is_following :: "db \<Rightarrow> nat \<Rightarrow> nat \<Rightarrow> bool" where
  "is_following d uid aid =
     (\<exists>f \<in> set (follows d). follow_user f = uid \<and> follow_author f = aid)"

definition follow_queryset :: "db \<Rightarrow> nat \<Rightarrow> Post list" where
  "follow_queryset d uid =
     filter (\<lambda>p. is_following d uid (author p)) (newest_first (posts d))"

text \<open>
  Modelled from the spec: what a listing template renders from its page
  (the templates are not among the sources).
\<close>

definition render :: "Post page \<Rightarrow> content" where
  "render pg =
     \<lparr>shown = page_object_list pg, page_no = number pg,
      page_count = num_pages (page_paginator pg)\<rparr>"

definition list_response :: "string \<Rightarrow> request \<Rightarrow> Post list \<Rightarrow> response" where
  "list_response template r qs =
     (case get_page_obj r qs of
        Inl e \<Rightarrow> HttpResponseServerError
      | Inr pg \<Rightarrow> PageResponse template pg (render pg))"

text \<open>
  Modelled from the spec: the views \<^verbatim>\<open>group_list\<close>, \<^verbatim>\<open>profile\<close> and
  \<^verbatim>\<open>follow_index\<close> (\<^verbatim>\<open>posts/views.py\<close> is not among the sources). An unknown slug
  or user name is a 404; the follow feed needs a login.
\<close>

definition group_list :: "string \<Rightarrow> state \<Rightarrow> request \<Rightarrow> state \<times> response" where
  "group_list sl s r =
     (case find (\<lambda>g. slug g = sl) (groups (database s)) of
        None \<Rightarrow> (s, HttpResponseNotFound)
      | Some g \<Rightarrow>
          (s, list_response ''posts/group_list.html'' r
                (group_queryset (database s) (group_id g))))"

definition profile :: "string \<Rightarrow> state \<Rightarrow> request \<Rightarrow> state \<times> response" where
  "profile name s r =
     (case find (\<lambda>u. username u = name) (users (database s)) of
        None \<Rightarrow> (s, HttpResponseNotFound)
      | Some a \<Rightarrow>
          (s, list_response ''posts/profile.html'' r
                (profile_queryset (database s) (user_id a))))"

definition follow_index_view :: "User \<Rightarrow> state \<Rightarrow> request \<Rightarrow> state \<times> response" where
  "follow_index_view u s r =
     (s, list_response ''posts/follow.html'' r (follow_queryset (database s) (user_id u)))"

definition follow_index :: "state \<Rightarrow> request \<Rightarrow> state \<times> response" where
  "follow_index = login_required follow_index_view"

text \<open>
  Modelled from the spec: the page cache of the home feed (the template with the cache
  directive and the cache settings are not among the sources). The content is kept for
  20 seconds under the route and its page parameter; an entry is served while the clock
  is before its expiry; no write to the tables touches the cache.
\<close>

definition CACHE_SECONDS :: int where
  "CACHE_SECONDS = 20"

definition cache_get :: "state \<Rightarrow> string \<times> py_str option \<Rightarrow> content option" where
  "cache_get s key =
     (case cache s key of
        None \<Rightarrow> None
      | Some (c, expiry) \<Rightarrow> if clock s < expiry then Some c else None)"

definition cache_set :: "state \<Rightarrow> string \<times> py_str option \<Rightarrow> content \<Rightarrow> state" where
  "cache_set s key c = s\<lparr>cache := (cache s)(key \<mapsto> (c, clock s + CACHE_SECONDS))\<rparr>"

definition cache_clear :: "state \<Rightarrow> state" where
  "cache_clear s = s\<lparr>cache := Map.empty\<rparr>"

text \<open>
  Modelled from the spec: the view \<^verbatim>\<open>index\<close> (\<^verbatim>\<open>posts/views.py\<close> is not among the
  sources). The page of the context is computed on every request; the content is the
  cached one while there is a live entry, and is rendered and stored otherwise.
\<close>

definition index :: "state \<Rightarrow> request \<Rightarrow> state \<times> response" where
  "index s r =
     (case get_page_obj r (index_queryset (database s)) of
        Inl e \<Rightarrow> (s, HttpResponseServerError)
      | Inr pg \<Rightarrow>
          (let key = (path r, GET r ''page'') in
           case cache_get s key of
             Some c \<Rightarrow> (s, PageResponse ''posts/index.html'' pg c)
           | None \<Rightarrow>
               (cache_set s key (render pg), PageResponse ''posts/index.html'' pg (render pg))))"

text \<open>
  Modelled from the spec: deleting a post, which takes its comments along, and the
  passing of time between two requests.
\<close>

definition delete_post :: "nat \<Rightarrow> state \<Rightarrow> state" where
  "delete_post pid s = s\<lparr>database := cascade_posts (\<lambda>p. post_id p = pid) (database s)\<rparr>"

definition advance :: "nat \<Rightarrow> state \<Rightarrow> state" where
  "advance dt s = s\<lparr>clock := clock s + int dt\<rparr>"

text \<open>The parts of a response that the tests read.\<close>

definition response_content :: "response \<Rightarrow> content option" where
  "response_content resp = (case resp of PageResponse t pg c \<Rightarrow> Some c | _ \<Rightarrow> None)"

definition response_page :: "response \<Rightarrow> Post page option" where
  "response_page resp = (case resp of PageResponse t pg c \<Rightarrow> Some pg | _ \<Rightarrow> None)"

definition posts_on_page :: "response \<Rightarrow> nat option" where
  "posts_on_page resp = map_option page_len (response_page resp)"

section \<open>The test client\<close>

text \<open>
  The interpreter of the scenarios below: of the decimal digits above ASCII its database
  is cut down to the Arabic-Indic ones, and its digit cap is 4300.
\<close>

definition test_interpreter :: interpreter where
  "test_interpreter =
     \<lparr>unicode_decimal = (\<lambda>c. if 1632 \<le> c \<and> c \<le> 1641 then Some (c - 1632) else None),
      int_max_str_digits = 4300\<rparr>"

text \<open>
  \<^verbatim>\<open>Client().get(path)\<close> and \<^verbatim>\<open>Client().post(path, data)\<close> of the test suites,
  after \<^verbatim>\<open>force_login\<close> when a user is given; the query parameters are written as
  literals.
\<close>

definition client_get :: "User option \<Rightarrow> string \<Rightarrow> query_dict \<Rightarrow> request" where
  "client_get u p q =
     \<lparr>req_method = HttpGet, path = p, GET = (\<lambda>k. map_option ustr (q k)), POST = Map.empty,
      FILES = Map.empty, user = u, interp = test_interpreter\<rparr>"

definition client_post ::
  "User option \<Rightarrow> string \<Rightarrow> query_dict \<Rightarrow> (string \<rightharpoonup> uploaded_file) \<Rightarrow> request" where
  "client_post u p d f =
     \<lparr>req_method = HttpPost, path = p, GET = Map.empty, POST = d, FILES = f, user = u,
      interp = test_interpreter\<rparr>"

section \<open>The fixtures of the test suites\<close>

text \<open>
  \<^verbatim>\<open>PaginatorViewsTest.setUpClass\<close>: one user, one group and thirteen posts of that
  user in that group, with an empty cache.
\<close>

definition paginator_fixture :: state where
  "paginator_fixture =
     \<lparr>database =
        \<lparr>users = [\<lparr>user_id = 1, username = ''Author''\<rparr>],
         groups = [\<lparr>group_id = 1, title = ''group one'', slug = ''test-slug'',
                    description = ''description''\<rparr>],
         posts = map (\<lambda>i. \<lparr>post_id = nat i, post_text = ''post'', pub_date = i, author = 1,
                            post_group = Some 1, image = []\<rparr>)
                   [1, 2, 3, 4, 5, 6, 7, 8, 9, 10, 11, 12, 13],
         comments = [],
         follows = []\<rparr>,
      cache = Map.empty, clock = 13, next_post_id = 14\<rparr>"

text \<open>
  A project state in which migration 0003 applies: the two models it alters, with a
  cascading \<^verbatim>\<open>post.group\<close> and no ordering (the migrations before 0003 are not among
  the sources).
\<close>

definition schema_before_0003 :: project_state where
  "schema_before_0003 =
     [''group'' \<mapsto>
        \<lparr>model_fields = [''title'' \<mapsto> CharField 100, ''slug'' \<mapsto> CharField 50,
                         ''description'' \<mapsto> TextField],
         ordering = []\<rparr>,
      ''post'' \<mapsto>
        \<lparr>model_fields = [''text'' \<mapsto> TextField,
                         ''group'' \<mapsto> ForeignKey True True CASCADE ''posts.Group''],
         ordering = []\<rparr>]"

text \<open>
  \<^verbatim>\<open>PostPagesTests.setUpClass\<close>: two users, one group, three posts of the first user
  (the first and the third in the group, the third with an image) and one comment on the
  second post.
\<close>

definition pages_fixture :: db where
  "pages_fixture =
     \<lparr>users = [\<lparr>user_id = 1, username = ''Author''\<rparr>, \<lparr>user_id = 2, username = ''Noname''\<rparr>],
      groups = [\<lparr>group_id = 1, title = ''group'', slug = ''test-slug'',
                 description = ''description''\<rparr>],
      posts = [\<lparr>post_id = 1, post_text = ''post 1'', pub_date = 1, author = 1,
                post_group = Some 1, image = []\<rparr>,
               \<lparr>post_id = 2, post_text = ''post 2'', pub_date = 2, author = 1,
                post_group = None, image = []\<rparr>,
               \<lparr>post_id = 3, post_text = ''post 3'', pub_date = 3, author = 1,
                post_group = Some 1, image = ''posts/small.gif''\<rparr>],
      comments = [\<lparr>comment_id = 1, comment_post = 2, comment_author = 2,
                   comment_text = ''comment''\<rparr>],
      follows = []\<rparr>"

text \<open>A state with the given tables, an empty cache, the clock and the next post id.\<close>

definition fresh_state :: "db \<Rightarrow> int \<Rightarrow> nat \<Rightarrow> state" where
  "fresh_state d t n = \<lparr>database = d, cache = Map.empty, clock = t, next_post_id = n\<rparr>"

text \<open>
  \<^verbatim>\<open>PostFormTests.setUpClass\<close>: two users, two groups and one post of the first user
  in the first group.
\<close>

definition forms_fixture :: state where
  "forms_fixture =
     fresh_state
       \<lparr>users = [\<lparr>user_id = 1, username = ''Author''\<rparr>,
                 \<lparr>user_id = 2, username = ''Commentator''\<rparr>],
        groups = [\<lparr>group_id = 1, title = ''group one'', slug = ''slug_1'',
                   description = ''description''\<rparr>,
                  \<lparr>group_id = 2, title = ''group two'', slug = ''slug_2'',
                   description = ''description''\<rparr>],
        posts = [\<lparr>post_id = 1, post_text = ''post'', pub_date = 1, author = 1,
                  post_group = Some 1, image = []\<rparr>],
        comments = [],
        follows = []\<rparr> 2 2"

text \<open>
  \<^verbatim>\<open>PostURLTests.setUpClass\<close>: an author, another user, one group and one post of the
  author without a group.
\<close>

definition urls_fixture :: state where
  "urls_fixture =
     fresh_state
       \<lparr>users = [\<lparr>user_id = 1, username = ''Author''\<rparr>,
                 \<lparr>user_id = 2, username = ''Somebody''\<rparr>],
        groups = [\<lparr>group_id = 1, title = ''group'', slug = ''test-slug'',
                   description = ''description''\<rparr>],
        posts = [\<lparr>post_id = 1, post_text = ''post'', pub_date = 1, author = 1,
                  post_group = None, image = []\<rparr>],
        comments = [],
        follows = []\<rparr> 2 2"

text \<open>
  \<^verbatim>\<open>FollowViewsTest\<close>: an author, a follower of the author, a user who follows
  nobody, the post of the fixture and the new post of the two feed tests.
\<close>

definition follow_fixture :: db where
  "follow_fixture =
     \<lparr>users = [\<lparr>user_id = 1, username = ''author''\<rparr>,
               \<lparr>user_id = 2, username = ''follower''\<rparr>,
               \<lparr>user_id = 3, username = ''not_yet_follower''\<rparr>],
      groups = [],
      posts = [\<lparr>post_id = 1, post_text = ''post'', pub_date = 1, author = 1,
                post_group = None, image = []\<rparr>,
               \<lparr>post_id = 2, post_text = ''new post'', pub_date = 2, author = 1,
                post_group = None, image = []\<rparr>],
      comments = [],
      follows = [\<lparr>follow_user = 2, follow_author = 1\<rparr>]\<rparr>"

text \<open>
  \<^verbatim>\<open>test_cache_index_page\<close>: the page fixture and the post the test creates, with an
  empty cache.
\<close>

definition cache_fixture :: state where
  "cache_fixture =
     fresh_state
       (pages_fixture\<lparr>posts := posts pages_fixture @
          [\<lparr>post_id = 4, post_text = ''post for the cache'', pub_date = 4, author = 1,
            post_group = None, image = []\<rparr>]\<rparr>) 4 5"

text \<open>A comment model for the project state that migration 0010 is applied to.\<close>

definition comment_model :: model_state where
  "comment_model = \<lparr>model_fields = [''text'' \<mapsto> TextField], ordering = []\<rparr>"

text \<open>The follow fixture as a state.\<close>

definition follow_state :: state where
  "follow_state = fresh_state follow_fixture 2 3"

text \<open>
  A form class for the sign-up scenario, standing in for the library's: it wants a user
  name of ASCII letters and digits that is not taken, and two equal passwords of at
  least eight characters; it saves the user under the next free id.
\<close>

definition ascii_alnum :: "char \<Rightarrow> bool" where
  "ascii_alnum c =
     (let n = (of_char c :: nat)
      in (48 \<le> n \<and> n \<le> 57) \<or> (65 \<le> n \<and> n \<le> 90) \<or> (97 \<le> n \<and> n \<le> 122))"

definition scenario_form :: "string list \<Rightarrow> model_form" where
  "scenario_form field_names =
     \<lparr>form_errors = (\<lambda>d data.
        (if form_value data ''username'' = [] \<or>
            \<not> list_all ascii_alnum (form_value data ''username'') \<or>
            (\<exists>u \<in> set (users d). username u = form_value data ''username'')
         then [''username''] else []) @
        (if length (form_value data ''password1'') < 8 then [''password1''] else []) @
        (if form_value data ''password2'' \<noteq> form_value data ''password1''
         then [''password2''] else [])),
      form_save = (\<lambda>d data.
        d\<lparr>users := users d @
             [\<lparr>user_id = Suc (fold max (map user_id (users d)) 0),
               username = form_value data ''username''\<rparr>]\<rparr>)\<rparr>"

section \<open>Properties of the paginator\<close>

lemma py_slice_nonneg:
  "0 \<le> b \<Longrightarrow> 0 \<le> t \<Longrightarrow> py_slice xs b t = take (nat t - nat b) (drop (nat b) xs)"
  by (auto simp: py_slice_def py_bound_def Let_def min_def)

lemma num_pages_Paginator:
  "num_pages (Paginator qs POSTS_PER_PAGE) = (max 1 (int (length qs)) + 9) div 10"
  by (simp add: num_pages_def Paginator_def POSTS_PER_PAGE_def count_def)

lemma num_pages_ge1: "1 \<le> num_pages (Paginator qs POSTS_PER_PAGE)"
  unfolding num_pages_Paginator by linarith

lemma validate_number_int:
  "1 \<le> n \<Longrightarrow> n \<le> num_pages p \<Longrightarrow> validate_number p (PyInt n) = Inr n"
  by (simp add: validate_number_def)

lemma page_window:
  assumes "1 \<le> n"
  shows "py_slice qs ((n - 1) * 10)
           (if (n - 1) * 10 + 10 + 0 \<ge> int (length qs) then int (length qs)
            else (n - 1) * 10 + 10)
         = take 10 (drop (nat ((n - 1) * 10)) qs)"
proof -
  have b: "0 \<le> (n - 1) * 10" using assms by simp
  have d: "nat ((n - 1) * 10 + 10) - nat ((n - 1) * 10) = 10"
    using b by (simp add: nat_add_distrib)
  show ?thesis
  proof (cases "(n - 1) * 10 + 10 + 0 \<ge> int (length qs)")
    case True
    then have "length qs - nat ((n - 1) * 10) \<le> 10" by linarith
    then show ?thesis using True b by (simp add: py_slice_nonneg)
  next
    case False
    then show ?thesis using b d by (simp add: py_slice_nonneg)
  qed
qed

lemma page_valid:
  assumes "1 \<le> n" "n \<le> num_pages (Paginator qs POSTS_PER_PAGE)"
  shows "page (Paginator qs POSTS_PER_PAGE) (PyInt n) =
     Inr \<lparr>page_object_list = take 10 (drop (nat ((n - 1) * 10)) qs), number = n,
          page_paginator = Paginator qs POSTS_PER_PAGE\<rparr>"
proof -
  let ?p = "Paginator qs POSTS_PER_PAGE"
  have f: "per_page ?p = 10" "orphans ?p = 0" "count ?p = int (length qs)"
    "object_list ?p = qs"
    by (simp_all add: Paginator_def POSTS_PER_PAGE_def count_def)
  show ?thesis
    unfolding page_def validate_number_int[OF assms] Let_def f sum.case
    using page_window[OF assms(1), of qs] by simp
qed

lemma get_page_selected:
  fixes qs :: "'a list"
  defines "p \<equiv> Paginator qs POSTS_PER_PAGE"
  shows "get_page p v =
    (case py_int v of
       Inl e \<Rightarrow> page p (PyInt 1)
     | Inr n \<Rightarrow> if n < 1 \<or> n > num_pages p then page p (PyInt (num_pages p))
               else page p (PyInt n))"
  using num_pages_ge1[of qs]
  by (auto simp: get_page_def validate_number_def p_def Paginator_def split: sum.splits)

lemma get_page_first:
  "py_int v = Inl e \<Longrightarrow>
   get_page (Paginator qs POSTS_PER_PAGE) v =
     Inr \<lparr>page_object_list = take 10 qs, number = 1,
          page_paginator = Paginator qs POSTS_PER_PAGE\<rparr>"
  using page_valid[of 1 qs] num_pages_ge1[of qs] by (simp add: get_page_selected)

lemma get_page_last:
  "py_int v = Inr n \<Longrightarrow> n < 1 \<or> n > num_pages (Paginator qs POSTS_PER_PAGE) \<Longrightarrow>
   get_page (Paginator qs POSTS_PER_PAGE) v =
     Inr \<lparr>page_object_list =
            take 10 (drop (nat ((num_pages (Paginator qs POSTS_PER_PAGE) - 1) * 10)) qs),
          number = num_pages (Paginator qs POSTS_PER_PAGE),
          page_paginator = Paginator qs POSTS_PER_PAGE\<rparr>"
  using page_valid[of "num_pages (Paginator qs POSTS_PER_PAGE)" qs] num_pages_ge1[of qs]
  by (simp add: get_page_selected)

lemma get_page_inside:
  "py_int v = Inr n \<Longrightarrow> 1 \<le> n \<Longrightarrow> n \<le> num_pages (Paginator qs POSTS_PER_PAGE) \<Longrightarrow>
   get_page (Paginator qs POSTS_PER_PAGE) v =
     Inr \<lparr>page_object_list = take 10 (drop (nat ((n - 1) * 10)) qs), number = n,
          page_paginator = Paginator qs POSTS_PER_PAGE\<rparr>"
  using page_valid[of n qs] by (simp add: get_page_selected)

lemma get_page_total: "\<exists>pg. get_page (Paginator qs POSTS_PER_PAGE) v = Inr pg"
proof (cases "py_int v")
  case (Inl e)
  then show ?thesis by (simp add: get_page_first)
next
  case (Inr n)
  show ?thesis
  proof (cases "n < 1 \<or> n > num_pages (Paginator qs POSTS_PER_PAGE)")
    case True
    with Inr show ?thesis by (simp add: get_page_last)
  next
    case False
    with Inr show ?thesis by (simp add: get_page_inside)
  qed
qed

lemma query_get_missing: "q k = None \<Longrightarrow> py_int (query_get py q k) = Inl TypeError"
  by (simp add: query_get_def)

lemma query_get_present: "q k = Some s \<Longrightarrow> py_int (query_get py q k) = py_int_str py s"
  by (simp add: query_get_def)

lemma last_page_drop:
  "take 10 (drop (nat ((num_pages (Paginator qs POSTS_PER_PAGE) - 1) * 10)) qs) =
   drop (nat ((num_pages (Paginator qs POSTS_PER_PAGE) - 1) * 10)) qs"
proof -
  define k where "k = (max 1 (int (length qs)) + 9) div 10"
  have "(max 1 (int (length qs)) + 9) mod 10 \<le> 9" by simp
  then have "k * 10 \<ge> max 1 (int (length qs))"
    unfolding k_def using div_mult_mod_eq[of "max 1 (int (length qs)) + 9" 10] by linarith
  then have "int (length qs) - 10 \<le> (k - 1) * 10" by simp
  then have "length qs - nat ((k - 1) * 10) \<le> 10" by linarith
  then show ?thesis unfolding num_pages_Paginator k_def by simp
qed

section \<open>Page selection is total\<close>

text \<open>
  C3. \<^verbatim>\<open>get_page_obj\<close> returns a page for every request and every query result, and
  never an exception. When the \<^verbatim>\<open>page\<close> parameter is missing, or is a string that
  \<^verbatim>\<open>int()\<close> rejects, the page is page 1 (the first ten items). When it is a string
  that \<^verbatim>\<open>int()\<close> reads as a number above the page count, the page is the last page
  (the items after the full pages before it), which has no next page.
\<close>

theorem get_page_obj_total_clamped:
  fixes qs :: "'a list"
  shows
    "(\<exists>pg. get_page_obj r qs = Inr pg) \<and>
     (GET r ''page'' = None \<longrightarrow>
        (\<exists>pg. get_page_obj r qs = Inr pg \<and> number pg = 1 \<and>
              page_object_list pg = take 10 qs)) \<and>
     (\<forall>s e. GET r ''page'' = Some s \<and> py_int_str (interp r) s = Inl e \<longrightarrow>
        (\<exists>pg. get_page_obj r qs = Inr pg \<and> number pg = 1 \<and>
              page_object_list pg = take 10 qs)) \<and>
     (\<forall>s n. GET r ''page'' = Some s \<and> py_int_str (interp r) s = Inr n \<and>
            n > num_pages (Paginator qs POSTS_PER_PAGE) \<longrightarrow>
        (\<exists>pg. get_page_obj r qs = Inr pg \<and>
              number pg = num_pages (Paginator qs POSTS_PER_PAGE) \<and>
              page_object_list pg =
                drop (nat ((num_pages (Paginator qs POSTS_PER_PAGE) - 1) * 10)) qs \<and>
              \<not> has_next pg))"
proof (intro conjI allI impI)
  show "\<exists>pg. get_page_obj r qs = Inr pg"
    using get_page_total[of qs] by (simp add: get_page_obj_def)
next
  assume "GET r ''page'' = None"
  then show "\<exists>pg. get_page_obj r qs = Inr pg \<and> number pg = 1 \<and>
              page_object_list pg = take 10 qs"
    by (simp add: get_page_obj_def get_page_first[OF query_get_missing])
next
  fix s e
  assume "GET r ''page'' = Some s \<and> py_int_str (interp r) s = Inl e"
  then have "py_int (query_get (interp r) (GET r) ''page'') = Inl e"
    by (simp add: query_get_present)
  then show "\<exists>pg. get_page_obj r qs = Inr pg \<and> number pg = 1 \<and>
              page_object_list pg = take 10 qs"
    by (simp add: get_page_obj_def get_page_first)
next
  fix s n
  assume a: "GET r ''page'' = Some s \<and> py_int_str (interp r) s = Inr n \<and>
            n > num_pages (Paginator qs POSTS_PER_PAGE)"
  then have pi: "py_int (query_get (interp r) (GET r) ''page'') = Inr n"
    by (simp add: query_get_present)
  have out: "n < 1 \<or> n > num_pages (Paginator qs POSTS_PER_PAGE)"
    using a by simp
  have gp: "get_page (Paginator qs POSTS_PER_PAGE) (query_get (interp r) (GET r) ''page'') =
     Inr \<lparr>page_object_list =
            drop (nat ((num_pages (Paginator qs POSTS_PER_PAGE) - 1) * 10)) qs,
          number = num_pages (Paginator qs POSTS_PER_PAGE),
          page_paginator = Paginator qs POSTS_PER_PAGE\<rparr>"
    using get_page_last[OF pi out] unfolding last_page_drop .
  show "\<exists>pg. get_page_obj r qs = Inr pg \<and>
              number pg = num_pages (Paginator qs POSTS_PER_PAGE) \<and>
              page_object_list pg =
                drop (nat ((num_pages (Paginator qs POSTS_PER_PAGE) - 1) * 10)) qs \<and>
              \<not> has_next pg"
    unfolding get_page_obj_def Let_def gp by (simp add: has_next_def)
qed

lemmas int_defs =
  py_int_str_def py_strip_def py_isspace_def digit_val_def to_ascii_def unicode_isspace_def
  digit_count_def ustr_def

lemma py_int_str_99: "py_int_str py (ustr ''99'') = Inr 99"
  by (simp add: int_defs)

lemma py_int_str_abc: "py_int_str py (ustr ''abc'') = Inl ValueError"
  by (simp add: int_defs)

lemma py_int_str_separator: "py_int_str py [28, 57, 57] = Inl ValueError"
  by (simp add: int_defs)

lemma py_int_str_no_break_space: "py_int_str py [160, 57, 57] = Inr 99"
  by (simp add: int_defs)

lemma py_int_str_arabic_indic: "py_int_str test_interpreter [1641, 1641] = Inr 99"
  by (simp add: int_defs test_interpreter_def)

text \<open>
  Thirteen items and six requests: no \<^verbatim>\<open>page\<close> parameter, \<^verbatim>\<open>?page=abc\<close>,
  \<^verbatim>\<open>?page=99\<close>, and 99 after an information separator (code point 28, which
  \<^verbatim>\<open>int()\<close> does not skip), after a no-break space (code point 160, which it skips)
  and in Arabic-Indic digits.
\<close>

theorem get_page_obj_total_clamped_witness:
  "(\<exists>pg. get_page_obj (client_get None ''/'' Map.empty)
           [1, 2, 3, 4, 5, 6, 7, 8, 9, 10, 11, 12, 13::int] = Inr pg \<and>
         number pg = 1 \<and> page_object_list pg = [1, 2, 3, 4, 5, 6, 7, 8, 9, 10]) \<and>
   (\<exists>pg. get_page_obj (client_get None ''/'' [''page'' \<mapsto> ''abc''])
           [1, 2, 3, 4, 5, 6, 7, 8, 9, 10, 11, 12, 13::int] = Inr pg \<and>
         number pg = 1 \<and> page_object_list pg = [1, 2, 3, 4, 5, 6, 7, 8, 9, 10]) \<and>
   (\<exists>pg. get_page_obj (client_get None ''/'' [''page'' \<mapsto> ''99''])
           [1, 2, 3, 4, 5, 6, 7, 8, 9, 10, 11, 12, 13::int] = Inr pg \<and>
         number pg = 2 \<and> page_object_list pg = [11, 12, 13] \<and> \<not> has_next pg) \<and>
   (\<exists>pg. get_page_obj ((client_get None ''/'' Map.empty)\<lparr>GET := [''page'' \<mapsto> [28, 57, 57]]\<rparr>)
           [1, 2, 3, 4, 5, 6, 7, 8, 9, 10, 11, 12, 13::int] = Inr pg \<and>
         number pg = 1 \<and> page_object_list pg = [1, 2, 3, 4, 5, 6, 7, 8, 9, 10]) \<and>
   (\<exists>pg. get_page_obj ((client_get None ''/'' Map.empty)\<lparr>GET := [''page'' \<mapsto> [160, 57, 57]]\<rparr>)
           [1, 2, 3, 4, 5, 6, 7, 8, 9, 10, 11, 12, 13::int] = Inr pg \<and>
         number pg = 2 \<and> page_object_list pg = [11, 12, 13] \<and> \<not> has_next pg) \<and>
   (\<exists>pg. get_page_obj ((client_get None ''/'' Map.empty)\<lparr>GET := [''page'' \<mapsto> [1641, 1641]]\<rparr>)
           [1, 2, 3, 4, 5, 6, 7, 8, 9, 10, 11, 12, 13::int] = Inr pg \<and>
         number pg = 2 \<and> page_object_list pg = [11, 12, 13] \<and> \<not> has_next pg)"
proof -
  let ?qs = "[1, 2, 3, 4, 5, 6, 7, 8, 9, 10, 11, 12, 13::int]"
  let ?r0 = "client_get None ''/'' Map.empty"
  let ?ra = "client_get None ''/'' [''page'' \<mapsto> ''abc'']"
  let ?rb = "client_get None ''/'' [''page'' \<mapsto> ''99'']"
  let ?rc = "?r0\<lparr>GET := [''page'' \<mapsto> [28, 57, 57]]\<rparr>"
  let ?rd = "?r0\<lparr>GET := [''page'' \<mapsto> [160, 57, 57]]\<rparr>"
  let ?re = "?r0\<lparr>GET := [''page'' \<mapsto> [1641, 1641]]\<rparr>"
  have np: "num_pages (Paginator ?qs POSTS_PER_PAGE) = 2"
    by (simp add: num_pages_Paginator)
  have a: "GET ?r0 ''page'' = None"
    by (simp add: client_get_def)
  have b: "GET ?ra ''page'' = Some (ustr ''abc'') \<and>
           py_int_str (interp ?ra) (ustr ''abc'') = Inl ValueError"
    by (simp add: client_get_def py_int_str_abc)
  have c: "GET ?rb ''page'' = Some (ustr ''99'') \<and>
           py_int_str (interp ?rb) (ustr ''99'') = Inr 99 \<and>
           99 > num_pages (Paginator ?qs POSTS_PER_PAGE)"
    by (simp add: client_get_def py_int_str_99 np)
  have d: "GET ?rc ''page'' = Some [28, 57, 57] \<and>
           py_int_str (interp ?rc) [28, 57, 57] = Inl ValueError"
    by (simp add: py_int_str_separator)
  have e: "GET ?rd ''page'' = Some [160, 57, 57] \<and>
           py_int_str (interp ?rd) [160, 57, 57] = Inr 99 \<and>
           99 > num_pages (Paginator ?qs POSTS_PER_PAGE)"
    by (simp add: py_int_str_no_break_space np)
  have f: "GET ?re ''page'' = Some [1641, 1641] \<and>
           py_int_str (interp ?re) [1641, 1641] = Inr 99 \<and>
           99 > num_pages (Paginator ?qs POSTS_PER_PAGE)"
    by (simp add: client_get_def py_int_str_arabic_indic np)
  have w0: "\<exists>pg. get_page_obj ?r0 ?qs = Inr pg \<and> number pg = 1 \<and>
              page_object_list pg = [1, 2, 3, 4, 5, 6, 7, 8, 9, 10]"
    using get_page_obj_total_clamped[of ?r0 ?qs] a by simp
  have wa: "\<exists>pg. get_page_obj ?ra ?qs = Inr pg \<and> number pg = 1 \<and>
              page_object_list pg = [1, 2, 3, 4, 5, 6, 7, 8, 9, 10]"
    using get_page_obj_total_clamped[of ?ra ?qs] b by simp
  have wb: "\<exists>pg. get_page_obj ?rb ?qs = Inr pg \<and> number pg = 2 \<and>
              page_object_list pg = [11, 12, 13] \<and> \<not> has_next pg"
    using get_page_obj_total_clamped[of ?rb ?qs] c unfolding np by simp
  have wc: "\<exists>pg. get_page_obj ?rc ?qs = Inr pg \<and> number pg = 1 \<and>
              page_object_list pg = [1, 2, 3, 4, 5, 6, 7, 8, 9, 10]"
    using get_page_obj_total_clamped[of ?rc ?qs] d by simp
  have wd: "\<exists>pg. get_page_obj ?rd ?qs = Inr pg \<and> number pg = 2 \<and>
              page_object_list pg = [11, 12, 13] \<and> \<not> has_next pg"
    using get_page_obj_total_clamped[of ?rd ?qs] e unfolding np by simp
  have we: "\<exists>pg. get_page_obj ?re ?qs = Inr pg \<and> number pg = 2 \<and>
              page_object_list pg = [11, 12, 13] \<and> \<not> has_next pg"
    using get_page_obj_total_clamped[of ?re ?qs] f unfolding np by simp
  show ?thesis by (intro conjI w0 wa wb wc wd we)
qed

section \<open>Thirteen posts on two pages\<close>

lemma py_int_str_2: "py_int_str py (ustr ''2'') = Inr 2"
  by (simp add: int_defs)

lemma thirteen_first:
  assumes "length qs = 13" "GET r ''page'' = None"
  shows "\<exists>pg. get_page_obj r qs = Inr pg \<and> page_len pg = 10"
  using assms get_page_first[OF query_get_missing[of "GET r" "''page''" "interp r"], of qs]
  by (simp add: get_page_obj_def page_len_def)

lemma thirteen_second:
  assumes "length qs = 13" "GET r ''page'' = Some (ustr ''2'')"
  shows "\<exists>pg. get_page_obj r qs = Inr pg \<and> page_len pg = 3"
proof -
  have pi: "py_int (query_get (interp r) (GET r) ''page'') = Inr 2"
    using assms(2) by (simp add: query_get_present py_int_str_2)
  have np: "num_pages (Paginator qs POSTS_PER_PAGE) = 2"
    using assms(1) by (simp add: num_pages_Paginator)
  show ?thesis
    using get_page_inside[OF pi, of qs] assms(1) np
    by (simp add: get_page_obj_def page_len_def)
qed

lemma list_response_first:
  "length qs = 13 \<Longrightarrow> GET r ''page'' = None \<Longrightarrow>
   posts_on_page (list_response t r qs) = Some 10"
  using thirteen_first[of qs r]
  by (auto simp: list_response_def posts_on_page_def response_page_def)

lemma list_response_second:
  "length qs = 13 \<Longrightarrow> GET r ''page'' = Some (ustr ''2'') \<Longrightarrow>
   posts_on_page (list_response t r qs) = Some 3"
  using thirteen_second[of qs r]
  by (auto simp: list_response_def posts_on_page_def response_page_def)

lemma index_page:
  "get_page_obj r (index_queryset (database s)) = Inr pg \<Longrightarrow>
   response_page (snd (index s r)) = Some pg"
  by (simp add: index_def response_page_def Let_def split: option.splits)

lemma length_newest_first: "length (newest_first ps) = length ps"
  by (simp add: newest_first_def)

lemma set_newest_first: "set (newest_first ps) = set ps"
  by (simp add: newest_first_def)

lemma filter_all: "\<forall>x \<in> set xs. P x \<Longrightarrow> filter P xs = xs"
  by (induction xs) auto

text \<open>
  C2. The page size is 10. When the table holds exactly thirteen posts, all of one group
  and one author, then the home feed, the page of that group and the profile of that
  author each show 10 posts for a request without a \<^verbatim>\<open>page\<close> parameter and 3 posts
  for \<^verbatim>\<open>?page=2\<close>.
\<close>

theorem thirteen_posts_pages:
  assumes len: "length (posts (database s)) = 13"
    and same: "\<forall>p \<in> set (posts (database s)).
                 post_group p = Some (group_id g) \<and> author p = user_id a"
    and grp: "find (\<lambda>x. slug x = sl) (groups (database s)) = Some g"
    and usr: "find (\<lambda>u. username u = name) (users (database s)) = Some a"
    and r1: "GET r1 ''page'' = None"
    and r2: "GET r2 ''page'' = Some (ustr ''2'')"
  shows "POSTS_PER_PAGE = 10 \<and>
         posts_on_page (snd (index s r1)) = Some 10 \<and>
         posts_on_page (snd (index s r2)) = Some 3 \<and>
         posts_on_page (snd (group_list sl s r1)) = Some 10 \<and>
         posts_on_page (snd (group_list sl s r2)) = Some 3 \<and>
         posts_on_page (snd (profile name s r1)) = Some 10 \<and>
         posts_on_page (snd (profile name s r2)) = Some 3"
proof -
  have i: "length (index_queryset (database s)) = 13"
    using len by (simp add: index_queryset_def length_newest_first)
  have g: "group_queryset (database s) (group_id g) = newest_first (posts (database s))"
    unfolding group_queryset_def using same
    by (intro filter_all) (simp add: set_newest_first)
  have p: "profile_queryset (database s) (user_id a) = newest_first (posts (database s))"
    unfolding profile_queryset_def using same
    by (intro filter_all) (simp add: set_newest_first)
  have gl: "length (group_queryset (database s) (group_id g)) = 13"
    using len by (simp add: g length_newest_first)
  have pl: "length (profile_queryset (database s) (user_id a)) = 13"
    using len by (simp add: p length_newest_first)
  have i1: "posts_on_page (snd (index s r1)) = Some 10"
    using thirteen_first[OF i r1] by (auto simp: posts_on_page_def index_page)
  have i2: "posts_on_page (snd (index s r2)) = Some 3"
    using thirteen_second[OF i r2] by (auto simp: posts_on_page_def index_page)
  show ?thesis
    using i1 i2 list_response_first[OF gl r1] list_response_second[OF gl r2]
      list_response_first[OF pl r1] list_response_second[OF pl r2]
    by (simp add: POSTS_PER_PAGE_def group_list_def profile_def grp usr)
qed

text \<open>The thirteen posts of the paginator test, on the three pages it visits.\<close>

theorem thirteen_posts_pages_witness:
  "posts_on_page (snd (index paginator_fixture (client_get None ''/'' Map.empty))) = Some 10 \<and>
   posts_on_page (snd (index paginator_fixture (client_get None ''/'' [''page'' \<mapsto> ''2'']))) = Some 3 \<and>
   posts_on_page (snd (group_list ''test-slug'' paginator_fixture
      (client_get None ''/group/test-slug/'' Map.empty))) = Some 10 \<and>
   posts_on_page (snd (group_list ''test-slug'' paginator_fixture
      (client_get None ''/group/test-slug/'' [''page'' \<mapsto> ''2'']))) = Some 3 \<and>
   posts_on_page (snd (profile ''Author'' paginator_fixture
      (client_get None ''/profile/Author/'' Map.empty))) = Some 10 \<and>
   posts_on_page (snd (profile ''Author'' paginator_fixture
      (client_get None ''/profile/Author/'' [''page'' \<mapsto> ''2'']))) = Some 3"
proof -
  let ?g = "\<lparr>group_id = 1, title = ''group one'', slug = ''test-slug'',
                    description = ''description''\<rparr>"
  let ?a = "\<lparr>user_id = 1, username = ''Author''\<rparr>"
  have len: "length (posts (database paginator_fixture)) = 13"
    by (simp add: paginator_fixture_def)
  have same: "\<forall>p \<in> set (posts (database paginator_fixture)).
                 post_group p = Some (group_id ?g) \<and> author p = user_id ?a"
    by (simp add: paginator_fixture_def)
  have grp: "find (\<lambda>x. slug x = ''test-slug'') (groups (database paginator_fixture)) = Some ?g"
    by (simp add: paginator_fixture_def)
  have usr: "find (\<lambda>u. username u = ''Author'') (users (database paginator_fixture)) = Some ?a"
    by (simp add: paginator_fixture_def)
  have r1: "\<And>p. GET (client_get None p Map.empty) ''page'' = None"
    and r2: "\<And>p. GET (client_get None p [''page'' \<mapsto> ''2'']) ''page'' = Some (ustr ''2'')"
    by (simp_all add: client_get_def)
  have i: "posts_on_page (snd (index paginator_fixture (client_get None ''/'' Map.empty))) = Some 10 \<and>
   posts_on_page (snd (index paginator_fixture (client_get None ''/'' [''page'' \<mapsto> ''2'']))) = Some 3"
    using thirteen_posts_pages[OF len same grp usr r1 r2] by blast
  have g: "posts_on_page (snd (group_list ''test-slug'' paginator_fixture
      (client_get None ''/group/test-slug/'' Map.empty))) = Some 10 \<and>
   posts_on_page (snd (group_list ''test-slug'' paginator_fixture
      (client_get None ''/group/test-slug/'' [''page'' \<mapsto> ''2'']))) = Some 3"
    using thirteen_posts_pages[OF len same grp usr r1 r2] by blast
  have p: "posts_on_page (snd (profile ''Author'' paginator_fixture
      (client_get None ''/profile/Author/'' Map.empty))) = Some 10 \<and>
   posts_on_page (snd (profile ''Author'' paginator_fixture
      (client_get None ''/profile/Author/'' [''page'' \<mapsto> ''2'']))) = Some 3"
    using thirteen_posts_pages[OF len same grp usr r1 r2] by blast
  show ?thesis using i g p by blast
qed

section \<open>The schema after the migrations\<close>

lemma migrated_post:
  assumes "apply_operations (migration_0003 @ migration_0004) st0 = Some st"
    and "post_group_field st0 \<noteq> None"
  shows "post_group_field st = Some (ForeignKey True True SET_NULL ''posts.Group'') \<and>
         (\<exists>m. st ''post'' = Some m \<and> ordering m = [''-pub_date''])"
  using assms
  by (auto simp: migration_0003_def migration_0004_def post_group_field_def
      split: option.splits if_splits)

lemma migration_0010_post:
  assumes "apply_operations migration_0010 st = Some st'"
  shows "st' ''post'' = st ''post''"
  using assms
  by (auto simp: migration_0010_def split: option.splits if_splits)

lemma delete_group_set_null:
  "post_group_field st = Some (ForeignKey b n SET_NULL t) \<Longrightarrow>
   delete_group st gid d =
     Inr (remove_group gid (d\<lparr>posts := map (set_group_null gid) (posts d)\<rparr>))"
  by (simp add: delete_group_def)

lemma delete_group_same_post_model:
  "st' ''post'' = st ''post'' \<Longrightarrow> delete_group st' gid d = delete_group st gid d"
  by (simp add: delete_group_def post_group_field_def)

text \<open>
  C6. In the schema that migrations 0003 and 0004 leave, deleting a group succeeds and
  keeps every post: a post of the group is the same row with a null group, every other
  post is untouched, the comments are untouched, and the group is gone. Migration 0010
  does not change this, whatever was applied in between that left the post model alone.
\<close>

theorem group_delete_keeps_posts:
  assumes mig: "apply_operations (migration_0003 @ migration_0004) st0 = Some st"
    and fld: "post_group_field st0 \<noteq> None"
  shows "\<exists>d'. delete_group st gid d = Inr d' \<and>
           posts d' = map (\<lambda>p. if post_group p = Some gid then p\<lparr>post_group := None\<rparr> else p)
                        (posts d) \<and>
           length (posts d') = length (posts d) \<and>
           (\<forall>p \<in> set (posts d). post_group p = Some gid \<longrightarrow>
              p\<lparr>post_group := None\<rparr> \<in> set (posts d')) \<and>
           (\<forall>p \<in> set (posts d). post_group p \<noteq> Some gid \<longrightarrow> p \<in> set (posts d')) \<and>
           (\<forall>p \<in> set (posts d'). post_group p \<noteq> Some gid) \<and>
           comments d' = comments d \<and>
           groups d' = filter (\<lambda>g. group_id g \<noteq> gid) (groups d) \<and>
           (\<forall>st2 st3. st2 ''post'' = st ''post'' \<and>
                apply_operations migration_0010 st2 = Some st3 \<longrightarrow>
                delete_group st3 gid d = Inr d')"
proof -
  define f :: "Post \<Rightarrow> Post"
    where "f = (\<lambda>p. if post_group p = Some gid then p\<lparr>post_group := None\<rparr> else p)"
  define d' where "d' = remove_group gid (d\<lparr>posts := map (set_group_null gid) (posts d)\<rparr>)"
  have fk: "post_group_field st = Some (ForeignKey True True SET_NULL ''posts.Group'')"
    using migrated_post[OF mig fld] by simp
  have del: "delete_group st gid d = Inr d'"
    unfolding d'_def by (rule delete_group_set_null[OF fk])
  have sgn: "set_group_null gid = f"
    unfolding f_def by (rule ext) (simp add: set_group_null_def)
  have ps: "posts d' = map f (posts d)"
    by (simp add: d'_def remove_group_def sgn)
  have l: "length (posts d') = length (posts d)"
    by (simp add: ps)
  have m1: "\<forall>p \<in> set (posts d). post_group p = Some gid \<longrightarrow>
              p\<lparr>post_group := None\<rparr> \<in> set (posts d')"
  proof (intro ballI impI)
    fix p
    assume p: "p \<in> set (posts d)" and g: "post_group p = Some gid"
    have "f p \<in> set (posts d')" using p by (simp add: ps)
    then show "p\<lparr>post_group := None\<rparr> \<in> set (posts d')" using g by (simp add: f_def)
  qed
  have m2: "\<forall>p \<in> set (posts d). post_group p \<noteq> Some gid \<longrightarrow> p \<in> set (posts d')"
  proof (intro ballI impI)
    fix p
    assume p: "p \<in> set (posts d)" and g: "post_group p \<noteq> Some gid"
    have "f p \<in> set (posts d')" using p by (simp add: ps)
    then show "p \<in> set (posts d')" using g by (simp add: f_def)
  qed
  have m3: "\<forall>p \<in> set (posts d'). post_group p \<noteq> Some gid"
  proof
    fix q
    assume "q \<in> set (posts d')"
    then obtain p where "q = f p" by (auto simp: ps)
    then show "post_group q \<noteq> Some gid" by (simp add: f_def)
  qed
  have c: "comments d' = comments d"
    by (simp add: d'_def remove_group_def)
  have g: "groups d' = filter (\<lambda>g. group_id g \<noteq> gid) (groups d)"
    by (simp add: d'_def remove_group_def)
  have later: "\<forall>st2 st3. st2 ''post'' = st ''post'' \<and>
                apply_operations migration_0010 st2 = Some st3 \<longrightarrow>
                delete_group st3 gid d = Inr d'"
  proof (intro allI impI)
    fix st2 st3
    assume a: "st2 ''post'' = st ''post'' \<and> apply_operations migration_0010 st2 = Some st3"
    then have "st3 ''post'' = st ''post''" using migration_0010_post[of st2 st3] by simp
    then show "delete_group st3 gid d = Inr d'"
      using del delete_group_same_post_model[of st3 st gid d] by simp
  qed
  show ?thesis
    apply (rule exI[of _ d'])
    unfolding f_def[symmetric]
    by (intro conjI del ps l m1 m2 m3 c g later)
qed

lemma order_by_pub_date_desc:
  "order_by [''-pub_date''] rows = Inr (newest_first rows)"
  by (simp add: order_term_def post_order_key_def newest_first_def)

lemma newest_first_sorted:
  "sorted_wrt (\<lambda>p q. pub_date p \<ge> pub_date q) (newest_first ps)"
proof -
  have "sorted (map (\<lambda>p. - pub_date p) (newest_first ps))"
    unfolding newest_first_def by (rule sorted_sort_key)
  then show ?thesis by (simp add: sorted_map)
qed

lemma mset_newest_first: "mset (newest_first ps) = mset ps"
  by (simp add: newest_first_def)

text \<open>
  C7. In the schema that migrations 0003 and 0004 leave, a post query without an
  explicit order returns every row of the table, sorted by publication date, newest
  first; the query results of the home feed, a group page, a profile page and the
  follow feed are that list or a filter of it, and so are newest first as well.
  Migration 0010 does not change this, whatever was applied in between that left the
  post model alone.
\<close>

theorem default_order_newest_first:
  assumes mig: "apply_operations (migration_0003 @ migration_0004) st0 = Some st"
    and fld: "post_group_field st0 \<noteq> None"
  shows "\<exists>rows. Post_objects_all st d = Inr rows \<and>
           sorted_wrt (\<lambda>p q. pub_date p \<ge> pub_date q) rows \<and>
           mset rows = mset (posts d) \<and>
           index_queryset d = rows \<and>
           group_queryset d gid = filter (\<lambda>p. post_group p = Some gid) rows \<and>
           profile_queryset d uid = filter (\<lambda>p. author p = uid) rows \<and>
           follow_queryset d uid = filter (\<lambda>p. is_following d uid (author p)) rows \<and>
           sorted_wrt (\<lambda>p q. pub_date p \<ge> pub_date q) (index_queryset d) \<and>
           sorted_wrt (\<lambda>p q. pub_date p \<ge> pub_date q) (group_queryset d gid) \<and>
           sorted_wrt (\<lambda>p q. pub_date p \<ge> pub_date q) (profile_queryset d uid) \<and>
           sorted_wrt (\<lambda>p q. pub_date p \<ge> pub_date q) (follow_queryset d uid) \<and>
           (\<forall>st2 st3. st2 ''post'' = st ''post'' \<and>
                apply_operations migration_0010 st2 = Some st3 \<longrightarrow>
                Post_objects_all st3 d = Inr rows)"
proof -
  obtain m where m: "st ''post'' = Some m" "ordering m = [''-pub_date'']"
    using migrated_post[OF mig fld] by blast
  have all: "Post_objects_all st d = Inr (newest_first (posts d))"
    by (simp add: Post_objects_all_def m order_by_pub_date_desc del: order_by.simps)
  have later: "\<forall>st2 st3. st2 ''post'' = st ''post'' \<and>
                apply_operations migration_0010 st2 = Some st3 \<longrightarrow>
                Post_objects_all st3 d = Inr (newest_first (posts d))"
  proof (intro allI impI)
    fix st2 st3
    assume a: "st2 ''post'' = st ''post'' \<and> apply_operations migration_0010 st2 = Some st3"
    then have "st3 ''post'' = st ''post''" using migration_0010_post[of st2 st3] by simp
    then show "Post_objects_all st3 d = Inr (newest_first (posts d))"
      using all by (simp add: Post_objects_all_def)
  qed
  show ?thesis
    using all later newest_first_sorted[of "posts d"] mset_newest_first[of "posts d"]
    by (simp add: index_queryset_def group_queryset_def profile_queryset_def
        follow_queryset_def sorted_wrt_filter)
qed


lemma schema_before_0003_migrates:
  "\<exists>st. apply_operations (migration_0003 @ migration_0004) schema_before_0003 = Some st"
  by (simp add: migration_0003_def migration_0004_def schema_before_0003_def)

lemma schema_before_0003_group: "post_group_field schema_before_0003 \<noteq> None"
  by (simp add: post_group_field_def schema_before_0003_def)

lemma migration_0010_applies:
  assumes "st ''group'' \<noteq> None"
  shows "\<exists>st3. apply_operations migration_0010 (st(''comment'' \<mapsto> comment_model)) = Some st3"
  using assms by (auto simp: migration_0010_def comment_model_def)

lemma migrated_group:
  assumes "apply_operations (migration_0003 @ migration_0004) st0 = Some st"
  shows "st ''group'' \<noteq> None"
  using assms
  by (auto simp: migration_0003_def migration_0004_def split: option.splits if_splits)

text \<open>
  Deleting the group of the page fixture under the migrated schema, before and after
  migration 0010.
\<close>

theorem group_delete_keeps_posts_witness:
  "\<exists>st st3 d'.
     apply_operations (migration_0003 @ migration_0004) schema_before_0003 = Some st \<and>
     apply_operations migration_0010 (st(''comment'' \<mapsto> comment_model)) = Some st3 \<and>
     delete_group st 1 pages_fixture = Inr d' \<and>
     delete_group st3 1 pages_fixture = Inr d' \<and>
     posts d' =
       [\<lparr>post_id = 1, post_text = ''post 1'', pub_date = 1, author = 1,
         post_group = None, image = []\<rparr>,
        \<lparr>post_id = 2, post_text = ''post 2'', pub_date = 2, author = 1,
         post_group = None, image = []\<rparr>,
        \<lparr>post_id = 3, post_text = ''post 3'', pub_date = 3, author = 1,
         post_group = None, image = ''posts/small.gif''\<rparr>] \<and>
     groups d' = [] \<and> comments d' = comments pages_fixture"
proof -
  obtain st where st:
    "apply_operations (migration_0003 @ migration_0004) schema_before_0003 = Some st"
    using schema_before_0003_migrates by blast
  obtain st3 where st3:
    "apply_operations migration_0010 (st(''comment'' \<mapsto> comment_model)) = Some st3"
    using migration_0010_applies[of st] migrated_group[OF st] by blast
  have same: "(st(''comment'' \<mapsto> comment_model)) ''post'' = st ''post''" by simp
  obtain d' where d': "delete_group st 1 pages_fixture = Inr d'"
    "posts d' = map (\<lambda>p. if post_group p = Some 1 then p\<lparr>post_group := None\<rparr> else p)
                  (posts pages_fixture)"
    "comments d' = comments pages_fixture"
    "groups d' = filter (\<lambda>g. group_id g \<noteq> 1) (groups pages_fixture)"
    "\<forall>st2 st3. st2 ''post'' = st ''post'' \<and>
                apply_operations migration_0010 st2 = Some st3 \<longrightarrow>
                delete_group st3 1 pages_fixture = Inr d'"
    using group_delete_keeps_posts[OF st schema_before_0003_group, of 1 pages_fixture]
    by blast
  have later: "delete_group st3 1 pages_fixture = Inr d'"
    using d'(5) same st3 by blast
  have p: "posts d' =
       [\<lparr>post_id = 1, post_text = ''post 1'', pub_date = 1, author = 1,
         post_group = None, image = []\<rparr>,
        \<lparr>post_id = 2, post_text = ''post 2'', pub_date = 2, author = 1,
         post_group = None, image = []\<rparr>,
        \<lparr>post_id = 3, post_text = ''post 3'', pub_date = 3, author = 1,
         post_group = None, image = ''posts/small.gif''\<rparr>]"
    unfolding d'(2) by (simp add: pages_fixture_def)
  have g: "groups d' = []"
    unfolding d'(4) by (simp add: pages_fixture_def)
  show ?thesis using st st3 d'(1) later d'(3) p g by blast
qed

lemma newest_first_pages_fixture:
  "newest_first (posts pages_fixture) =
       [\<lparr>post_id = 3, post_text = ''post 3'', pub_date = 3, author = 1,
         post_group = Some 1, image = ''posts/small.gif''\<rparr>,
        \<lparr>post_id = 2, post_text = ''post 2'', pub_date = 2, author = 1,
         post_group = None, image = []\<rparr>,
        \<lparr>post_id = 1, post_text = ''post 1'', pub_date = 1, author = 1,
         post_group = Some 1, image = []\<rparr>]"
  by (simp add: newest_first_def pages_fixture_def)

text \<open>
  The three posts of the page fixture, as the default query returns them before and
  after migration 0010.
\<close>

theorem default_order_newest_first_witness:
  "\<exists>st st3.
     apply_operations (migration_0003 @ migration_0004) schema_before_0003 = Some st \<and>
     apply_operations migration_0010 (st(''comment'' \<mapsto> comment_model)) = Some st3 \<and>
     Post_objects_all st3 pages_fixture = Post_objects_all st pages_fixture \<and>
     Post_objects_all st pages_fixture =
       Inr [\<lparr>post_id = 3, post_text = ''post 3'', pub_date = 3, author = 1,
             post_group = Some 1, image = ''posts/small.gif''\<rparr>,
            \<lparr>post_id = 2, post_text = ''post 2'', pub_date = 2, author = 1,
             post_group = None, image = []\<rparr>,
            \<lparr>post_id = 1, post_text = ''post 1'', pub_date = 1, author = 1,
             post_group = Some 1, image = []\<rparr>]"
proof -
  obtain st where st:
    "apply_operations (migration_0003 @ migration_0004) schema_before_0003 = Some st"
    using schema_before_0003_migrates by blast
  obtain st3 where st3:
    "apply_operations migration_0010 (st(''comment'' \<mapsto> comment_model)) = Some st3"
    using migration_0010_applies[of st] migrated_group[OF st] by blast
  have same: "(st(''comment'' \<mapsto> comment_model)) ''post'' = st ''post''" by simp
  obtain rows where r: "Post_objects_all st pages_fixture = Inr rows"
    "index_queryset pages_fixture = rows"
    "\<forall>st2 st3. st2 ''post'' = st ''post'' \<and>
                apply_operations migration_0010 st2 = Some st3 \<longrightarrow>
                Post_objects_all st3 pages_fixture = Inr rows"
    using default_order_newest_first[OF st schema_before_0003_group, of pages_fixture]
    by blast
  have later: "Post_objects_all st3 pages_fixture = Inr rows"
    using r(3) same st3 by blast
  have "rows = newest_first (posts pages_fixture)"
    using r(2) by (simp add: index_queryset_def)
  then have "Post_objects_all st pages_fixture =
       Inr [\<lparr>post_id = 3, post_text = ''post 3'', pub_date = 3, author = 1,
             post_group = Some 1, image = ''posts/small.gif''\<rparr>,
            \<lparr>post_id = 2, post_text = ''post 2'', pub_date = 2, author = 1,
             post_group = None, image = []\<rparr>,
            \<lparr>post_id = 1, post_text = ''post 1'', pub_date = 1, author = 1,
             post_group = Some 1, image = []\<rparr>]"
    using r(1) newest_first_pages_fixture by simp
  moreover have "Post_objects_all st3 pages_fixture = Post_objects_all st pages_fixture"
    using later r(1) by simp
  ultimately show ?thesis using st st3 by blast
qed

section \<open>Sign-up and the edit guard\<close>

lemma reverse_index: "reverse ''posts:index'' [] = Some ''/''"
  by (simp add: reverse_def)

lemma reverse_profile: "reverse ''posts:profile'' [name] = Some (''/profile/'' @ name @ ''/'')"
  by (simp add: reverse_def)

lemma reverse_post_detail:
  "reverse ''posts:post_detail'' [a] = Some (''/posts/'' @ a @ ''/'')"
  by (simp add: reverse_def)

text \<open>
  C10. Whatever the library form accepts: a POST to the sign-up view whose form is valid
  saves the form and redirects to the route \<^verbatim>\<open>posts:index\<close>, the home feed at
  \<^verbatim>\<open>/\<close>; this is neither the login page nor the profile page of any user.
\<close>

theorem signup_redirects_home:
  assumes "req_method r = HttpPost"
    and "form_errors (CreationForm UserCreationForm) (database s) (POST r) = []"
  shows "SignUp UserCreationForm s r =
           (s\<lparr>database := form_save (CreationForm UserCreationForm) (database s) (POST r)\<rparr>,
            HttpResponseRedirect ''/'') \<and>
         reverse ''posts:index'' [] = Some ''/'' \<and>
         ''/'' \<noteq> LOGIN_URL \<and>
         (\<forall>name. reverse ''posts:profile'' [name] \<noteq> Some ''/'')"
  using assms
  by (simp add: SignUp_def SignUp_success_url_def reverse_index reverse_profile LOGIN_URL_def)

text \<open>
  C4. A logged-in user who is not the author of an existing post and asks for its edit
  page is redirected to the detail page of the post, with nothing changed; and whenever
  the edit view answers with the form, the user is logged in and is the author of the
  post the form is bound to.
\<close>

theorem post_edit_only_for_author:
  "(\<forall>u p. user r = Some u \<and>
           find (\<lambda>q. post_id q = pid) (posts (database s)) = Some p \<and>
           author p \<noteq> user_id u \<longrightarrow>
      post_edit pid s r = (s, HttpResponseRedirect (''/posts/'' @ str_nat pid @ ''/''))) \<and>
   (\<forall>s' t inst errs. post_edit pid s r = (s', FormResponse t inst errs) \<longrightarrow>
      (\<exists>u p. user r = Some u \<and>
             find (\<lambda>q. post_id q = pid) (posts (database s)) = Some p \<and>
             author p = user_id u \<and> inst = Some p))"
proof (intro conjI allI impI)
  fix u p
  assume "user r = Some u \<and>
           find (\<lambda>q. post_id q = pid) (posts (database s)) = Some p \<and>
           author p \<noteq> user_id u"
  then show "post_edit pid s r = (s, HttpResponseRedirect (''/posts/'' @ str_nat pid @ ''/''))"
    by (simp add: post_edit_def login_required_def post_edit_view_def reverse_post_detail
        del: str_nat.simps)
next
  fix s' t inst errs
  assume a: "post_edit pid s r = (s', FormResponse t inst errs)"
  show "\<exists>u p. user r = Some u \<and>
             find (\<lambda>q. post_id q = pid) (posts (database s)) = Some p \<and>
             author p = user_id u \<and> inst = Some p"
  proof (cases "user r")
    case None
    then show ?thesis using a by (simp add: post_edit_def login_required_def)
  next
    case (Some u)
    show ?thesis
    proof (cases "find (\<lambda>q. post_id q = pid) (posts (database s))")
      case None
      then show ?thesis using a Some
        by (simp add: post_edit_def login_required_def post_edit_view_def)
    next
      case (Some p)
      then show ?thesis using a \<open>user r = Some u\<close>
        by (auto simp: post_edit_def login_required_def post_edit_view_def reverse_post_detail
            Let_def simp del: str_nat.simps split: if_splits http_method.splits sum.splits)
    qed
  qed
qed

section \<open>Creating a post\<close>

lemma py_int_str_empty: "py_int_str py (ustr []) = Inl ValueError"
  by (simp add: py_int_str_def py_strip_def ustr_def)

lemma PostForm_clean_valid:
  assumes t: "POST r ''text'' = Some t" "t \<noteq> []"
    and g: "POST r ''group'' = Some gs" "py_int_str (interp r) (ustr gs) = Inr (int gid)"
       "\<exists>x \<in> set (groups d). group_id x = gid"
    and f: "FILES r ''image'' = Some f" "is_image f"
  shows "PostForm_clean d r = Inr (t, Some gid, ''posts/'' @ file_name f)"
proof -
  have ne: "gs \<noteq> []" using g(2) py_int_str_empty by auto
  show ?thesis
    using assms ne by (simp add: PostForm_clean_def form_value_def Let_def)
qed

text \<open>
  C1. When a logged-in user posts the creation form with a non-empty text, the id of an
  existing group and an image, the response is a redirect to that user's profile, the
  table has exactly one post more, and the new post carries the text, the group, the
  user as author and the stored image path.
\<close>

theorem post_create_adds_one:
  assumes u: "user r = Some u"
    and m: "req_method r = HttpPost"
    and t: "POST r ''text'' = Some t" "t \<noteq> []"
    and g: "POST r ''group'' = Some gs" "py_int_str (interp r) (ustr gs) = Inr (int gid)"
       "\<exists>x \<in> set (groups (database s)). group_id x = gid"
    and f: "FILES r ''image'' = Some f" "is_image f"
  shows "\<exists>s' p. post_create s r =
             (s', HttpResponseRedirect (''/profile/'' @ username u @ ''/'')) \<and>
           posts (database s') = posts (database s) @ [p] \<and>
           length (posts (database s')) = length (posts (database s)) + 1 \<and>
           p \<in> set (posts (database s')) \<and>
           post_text p = t \<and> post_group p = Some gid \<and>
           image p = ''posts/'' @ file_name f \<and> author p = user_id u"
proof -
  let ?p = "\<lparr>post_id = next_post_id s, post_text = t, pub_date = clock s,
             author = user_id u, post_group = Some gid, image = ''posts/'' @ file_name f\<rparr>"
  let ?s = "s\<lparr>database := (database s)\<lparr>posts := posts (database s) @ [?p]\<rparr>,
             next_post_id := Suc (next_post_id s)\<rparr>"
  have c: "PostForm_clean (database s) r = Inr (t, Some gid, ''posts/'' @ file_name f)"
    by (rule PostForm_clean_valid[OF t g f])
  have r: "post_create s r = (?s, HttpResponseRedirect (''/profile/'' @ username u @ ''/''))"
    by (simp add: post_create_def login_required_def u post_create_view_def m c
        reverse_profile Let_def)
  show ?thesis
    apply (rule exI[of _ ?s])
    apply (rule exI[of _ ?p])
    using r by simp
qed

section \<open>The follow feed\<close>

lemma page_covers:
  assumes "x \<in> set qs"
  shows "\<exists>k pg. page (Paginator qs POSTS_PER_PAGE) (PyInt k) = Inr pg \<and>
           x \<in> set (page_object_list pg)"
proof -
  obtain i where i: "i < length qs" "qs ! i = x"
    using assms by (auto simp: in_set_conv_nth)
  define k where "k = int (i div 10) + 1"
  have k1: "1 \<le> k" by (simp add: k_def)
  have "i div 10 < (length qs + 9) div 10" using i(1) by linarith
  then have "k \<le> (int (length qs) + 9) div 10" unfolding k_def by linarith
  moreover have "max 1 (int (length qs)) = int (length qs)" using i(1) by simp
  ultimately have k2: "k \<le> num_pages (Paginator qs POSTS_PER_PAGE)"
    by (simp add: num_pages_Paginator)
  have off: "nat ((k - 1) * 10) = i div 10 * 10" by (simp add: k_def)
  have dm: "i div 10 * 10 + i mod 10 = i" by simp
  have "i mod 10 < length qs - i div 10 * 10" using i(1) dm by linarith
  then have lt: "i mod 10 < length (take 10 (drop (i div 10 * 10) qs))"
    by simp
  have "take 10 (drop (i div 10 * 10) qs) ! (i mod 10) = qs ! i"
    using i(1) dm by simp
  then have "x \<in> set (take 10 (drop (i div 10 * 10) qs))"
    using lt i(2) by (metis nth_mem)
  then have "x \<in> set (page_object_list
      \<lparr>page_object_list = take 10 (drop (nat ((k - 1) * 10)) qs), number = k,
       page_paginator = Paginator qs POSTS_PER_PAGE\<rparr>)"
    unfolding off by simp
  with page_valid[OF k1 k2] show ?thesis by blast
qed

lemma page_within:
  assumes "page (Paginator qs POSTS_PER_PAGE) (PyInt k) = Inr pg"
  shows "set (page_object_list pg) \<subseteq> set qs"
proof -
  have v: "validate_number (Paginator qs POSTS_PER_PAGE) (PyInt k) = Inr k \<and> 1 \<le> k \<and>
           k \<le> num_pages (Paginator qs POSTS_PER_PAGE)"
    using assms num_pages_ge1[of qs]
    by (auto simp: page_def validate_number_def split: sum.splits if_splits)
  then have "pg = \<lparr>page_object_list = take 10 (drop (nat ((k - 1) * 10)) qs), number = k,
          page_paginator = Paginator qs POSTS_PER_PAGE\<rparr>"
    using page_valid[of k qs] assms by simp
  then show ?thesis
    by (auto dest: in_set_takeD in_set_dropD)
qed

lemma get_page_obj_within:
  fixes r :: request
  assumes "get_page_obj r qs = Inr pg"
  shows "set (page_object_list pg) \<subseteq> set qs"
proof -
  obtain n where "get_page (Paginator qs POSTS_PER_PAGE)
      (query_get (interp r) (GET r) ''page'') =
     page (Paginator qs POSTS_PER_PAGE) (PyInt n)"
    by (simp add: get_page_def Let_def)
  then show ?thesis using assms page_within[of qs n pg] by (simp add: get_page_obj_def)
qed

lemma in_follow_queryset:
  "p \<in> set (follow_queryset d uid) \<longleftrightarrow> p \<in> set (posts d) \<and> is_following d uid (author p)"
  by (auto simp: follow_queryset_def set_newest_first)

text \<open>
  C9. A post of the table is in the follow feed of a user exactly when a follow pair of
  that user and the author of the post exists; it is then on one of the pages of the
  feed, and on no page otherwise. A page the view \<^verbatim>\<open>follow_index\<close> shows to the user
  holds only posts of followed authors, and the first page of a feed of at most ten
  posts holds every post of a followed author.
\<close>

theorem follow_feed_iff_following:
  assumes "p \<in> set (posts d)"
  shows "(p \<in> set (follow_queryset d uid) \<longleftrightarrow>
            (\<exists>f \<in> set (follows d). follow_user f = uid \<and> follow_author f = author p)) \<and>
         ((\<exists>k pg. page (Paginator (follow_queryset d uid) POSTS_PER_PAGE) (PyInt k) = Inr pg \<and>
                  p \<in> set (page_object_list pg)) \<longleftrightarrow>
            (\<exists>f \<in> set (follows d). follow_user f = uid \<and> follow_author f = author p)) \<and>
         (\<forall>(s::state) (r::request) u pg. database s = d \<and> user r = Some u \<and> user_id u = uid \<and>
             response_page (snd (follow_index s r)) = Some pg \<and>
             p \<in> set (page_object_list pg) \<longrightarrow>
            (\<exists>f \<in> set (follows d). follow_user f = uid \<and> follow_author f = author p)) \<and>
         (\<forall>(s::state) (r::request) u. database s = d \<and> user r = Some u \<and> user_id u = uid \<and>
             GET r ''page'' = None \<and> length (follow_queryset d uid) \<le> 10 \<and>
             (\<exists>f \<in> set (follows d). follow_user f = uid \<and> follow_author f = author p) \<longrightarrow>
            (\<exists>pg. response_page (snd (follow_index s r)) = Some pg \<and>
                  p \<in> set (page_object_list pg)))"
proof -
  let ?F = "\<exists>f \<in> set (follows d). follow_user f = uid \<and> follow_author f = author p"
  let ?qs = "follow_queryset d uid"
  have q: "p \<in> set ?qs \<longleftrightarrow> ?F"
    using assms by (simp add: in_follow_queryset is_following_def)
  have pages: "(\<exists>k pg. page (Paginator ?qs POSTS_PER_PAGE) (PyInt k) = Inr pg \<and>
                  p \<in> set (page_object_list pg)) \<longleftrightarrow> ?F"
    using q page_covers[of p ?qs] page_within[of ?qs] by blast
  have view1: "\<forall>(s::state) (r::request) u pg. database s = d \<and> user r = Some u \<and> user_id u = uid \<and>
             response_page (snd (follow_index s r)) = Some pg \<and>
             p \<in> set (page_object_list pg) \<longrightarrow> ?F"
  proof (intro allI impI)
    fix s :: state and r :: request and u pg
    assume a: "database s = d \<and> user r = Some u \<and> user_id u = uid \<and>
             response_page (snd (follow_index s r)) = Some pg \<and>
             p \<in> set (page_object_list pg)"
    then have "get_page_obj r ?qs = Inr pg"
      by (auto simp: follow_index_def login_required_def follow_index_view_def
          list_response_def response_page_def split: sum.splits)
    then have "p \<in> set ?qs" using a get_page_obj_within by blast
    then show ?F using q by simp
  qed
  have view2: "\<forall>(s::state) (r::request) u. database s = d \<and> user r = Some u \<and> user_id u = uid \<and>
             GET r ''page'' = None \<and> length ?qs \<le> 10 \<and> ?F \<longrightarrow>
            (\<exists>pg. response_page (snd (follow_index s r)) = Some pg \<and>
                  p \<in> set (page_object_list pg))"
  proof (intro allI impI)
    fix s :: state and r :: request and u
    assume a: "database s = d \<and> user r = Some u \<and> user_id u = uid \<and>
             GET r ''page'' = None \<and> length ?qs \<le> 10 \<and> ?F"
    then have g: "get_page_obj r ?qs =
        Inr \<lparr>page_object_list = take 10 ?qs, number = 1,
             page_paginator = Paginator ?qs POSTS_PER_PAGE\<rparr>"
      using get_page_first[OF query_get_missing[of "GET r" "''page''" "interp r"], of ?qs]
      by (simp add: get_page_obj_def)
    have "p \<in> set (take 10 ?qs)" using a q by simp
    then show "\<exists>pg. response_page (snd (follow_index s r)) = Some pg \<and>
                  p \<in> set (page_object_list pg)"
      using a g
      by (simp add: follow_index_def login_required_def follow_index_view_def
          list_response_def response_page_def)
  qed
  show ?thesis by (intro conjI q pages view1 view2)
qed

section \<open>The cached home page\<close>

lemma get_page_obj_total:
  fixes r :: request
  shows "\<exists>pg. get_page_obj r qs = Inr pg"
  using get_page_total[of qs] by (simp add: get_page_obj_def)

lemma index_miss:
  fixes r :: request
  assumes "cache_get s (path r, GET r ''page'') = None"
    and "get_page_obj r (index_queryset (database s)) = Inr pg"
  shows "index s r = (cache_set s (path r, GET r ''page'') (render pg),
                      PageResponse ''posts/index.html'' pg (render pg))"
  using assms by (simp add: index_def)

lemma index_hit:
  fixes r :: request
  assumes "cache_get s (path r, GET r ''page'') = Some c"
    and "get_page_obj r (index_queryset (database s)) = Inr pg"
  shows "index s r = (s, PageResponse ''posts/index.html'' pg c)"
  using assms by (simp add: index_def)

lemma cache_after:
  "cache (advance d2 (delete_post pid (advance d1 (cache_set s key c)))) key =
     Some (c, clock s + CACHE_SECONDS)"
  by (simp add: advance_def delete_post_def cache_set_def)

lemma clock_after:
  "clock (advance d2 (delete_post pid (advance d1 (cache_set s key c)))) =
     clock s + int d1 + int d2"
  by (simp add: advance_def delete_post_def cache_set_def)

lemma posts_after:
  "posts (database (advance d2 (delete_post pid (advance d1 (cache_set s key c))))) =
     filter (\<lambda>p. post_id p \<noteq> pid) (posts (database s))"
  by (simp add: advance_def delete_post_def cache_set_def cascade_posts_def Let_def)

lemma cache_get_clear: "cache_get (cache_clear s) key = None"
  by (simp add: cache_get_def cache_clear_def)

lemma database_clear: "database (cache_clear s) = database s"
  by (simp add: cache_clear_def)

text \<open>
  C8. Let the home page be rendered by a request that finds no live cache entry, and let
  a post be deleted afterwards. A later request for the same page returns the content of
  the first response while less than 20 seconds have passed, and the content rendered
  from the tables once 20 seconds have passed. After the cache is cleared the request
  returns the content rendered from the tables, which does not show the deleted post and
  differs from the first content when that one showed it.
\<close>

theorem cached_home_page_is_stale:
  fixes r :: request and s0 :: state and d1 d2 pid :: nat
  assumes miss: "cache_get s0 (path r, GET r ''page'') = None"
  defines "s2 \<equiv> advance d2 (delete_post pid (advance d1 (fst (index s0 r))))"
  shows "\<exists>pg0 pg2.
           get_page_obj r (index_queryset (database s0)) = Inr pg0 \<and>
           get_page_obj r (index_queryset (database s2)) = Inr pg2 \<and>
           response_content (snd (index s0 r)) = Some (render pg0) \<and>
           (d1 + d2 < 20 \<longrightarrow> response_content (snd (index s2 r)) = Some (render pg0)) \<and>
           (d1 + d2 \<ge> 20 \<longrightarrow> response_content (snd (index s2 r)) = Some (render pg2)) \<and>
           response_content (snd (index (cache_clear s2) r)) = Some (render pg2) \<and>
           (\<forall>p \<in> set (shown (render pg2)). post_id p \<noteq> pid) \<and>
           ((\<exists>p \<in> set (shown (render pg0)). post_id p = pid) \<longrightarrow>
              render pg2 \<noteq> render pg0)"
proof -
  let ?key = "(path r, GET r ''page'')"
  obtain pg0 where pg0: "get_page_obj r (index_queryset (database s0)) = Inr pg0"
    using get_page_obj_total by blast
  have i0: "index s0 r = (cache_set s0 ?key (render pg0),
                      PageResponse ''posts/index.html'' pg0 (render pg0))"
    by (rule index_miss[OF miss pg0])
  have s2: "s2 = advance d2 (delete_post pid (advance d1 (cache_set s0 ?key (render pg0))))"
    by (simp add: s2_def i0)
  obtain pg2 where pg2: "get_page_obj r (index_queryset (database s2)) = Inr pg2"
    using get_page_obj_total by blast
  have c0: "response_content (snd (index s0 r)) = Some (render pg0)"
    by (simp add: i0 response_content_def)
  have ch: "cache s2 ?key = Some (render pg0, clock s0 + CACHE_SECONDS)"
    unfolding s2 by (rule cache_after)
  have cl: "clock s2 = clock s0 + int d1 + int d2"
    unfolding s2 by (rule clock_after)
  have fresh: "d1 + d2 < 20 \<longrightarrow> response_content (snd (index s2 r)) = Some (render pg0)"
  proof
    assume "d1 + d2 < 20"
    then have "cache_get s2 ?key = Some (render pg0)"
      by (simp add: cache_get_def ch cl CACHE_SECONDS_def)
    then show "response_content (snd (index s2 r)) = Some (render pg0)"
      by (simp add: index_hit[OF _ pg2] response_content_def)
  qed
  have expired: "d1 + d2 \<ge> 20 \<longrightarrow> response_content (snd (index s2 r)) = Some (render pg2)"
  proof
    assume "d1 + d2 \<ge> 20"
    then have "cache_get s2 ?key = None"
      by (simp add: cache_get_def ch cl CACHE_SECONDS_def)
    then show "response_content (snd (index s2 r)) = Some (render pg2)"
      by (simp add: index_miss[OF _ pg2] response_content_def)
  qed
  have pg2': "get_page_obj r (index_queryset (database (cache_clear s2))) = Inr pg2"
    using pg2 by (simp add: database_clear)
  have cleared: "response_content (snd (index (cache_clear s2) r)) = Some (render pg2)"
    by (simp add: index_miss[OF cache_get_clear pg2'] response_content_def)
  have ps: "posts (database s2) = filter (\<lambda>p. post_id p \<noteq> pid) (posts (database s0))"
    unfolding s2 by (rule posts_after)
  have gone: "\<forall>p \<in> set (shown (render pg2)). post_id p \<noteq> pid"
  proof
    fix p
    assume "p \<in> set (shown (render pg2))"
    then have "p \<in> set (index_queryset (database s2))"
      using get_page_obj_within[OF pg2] by (auto simp: render_def)
    then show "post_id p \<noteq> pid"
      by (simp add: index_queryset_def set_newest_first ps)
  qed
  have differs: "(\<exists>p \<in> set (shown (render pg0)). post_id p = pid) \<longrightarrow>
              render pg2 \<noteq> render pg0"
    using gone by auto
  show ?thesis
    apply (rule exI[of _ pg0])
    apply (rule exI[of _ pg2])
    by (intro conjI pg0 pg2 c0 fresh expired cleared gone differs)
qed

section \<open>The test scenarios\<close>

lemma py_int_str_1: "py_int_str py (ustr ''1'') = Inr (int 1)"
  by (simp add: int_defs)

text \<open>\<^verbatim>\<open>test_create_post\<close>: the author posts a text, group 1 and \<^verbatim>\<open>small.gif\<close>.\<close>

theorem post_create_adds_one_witness:
  "\<exists>s' p. post_create forms_fixture
       (client_post (Some \<lparr>user_id = 1, username = ''Author''\<rparr>) ''/create/''
          [''text'' \<mapsto> ''Pythonistas'', ''group'' \<mapsto> ''1'']
          [''image'' \<mapsto> \<lparr>file_name = ''small.gif'', is_image = True\<rparr>]) =
       (s', HttpResponseRedirect ''/profile/Author/'') \<and>
     length (posts (database s')) = 2 \<and>
     p \<in> set (posts (database s')) \<and>
     post_text p = ''Pythonistas'' \<and> post_group p = Some 1 \<and>
     image p = ''posts/small.gif''"
proof -
  let ?u = "\<lparr>user_id = 1, username = ''Author''\<rparr>"
  let ?f = "\<lparr>file_name = ''small.gif'', is_image = True\<rparr>"
  let ?r = "client_post (Some ?u) ''/create/''
          [''text'' \<mapsto> ''Pythonistas'', ''group'' \<mapsto> ''1''] [''image'' \<mapsto> ?f]"
  have u: "user ?r = Some ?u" and m: "req_method ?r = HttpPost"
    and t: "POST ?r ''text'' = Some ''Pythonistas''" "''Pythonistas'' \<noteq> []"
    and g: "POST ?r ''group'' = Some ''1''"
    and f: "FILES ?r ''image'' = Some ?f" "is_image ?f"
    by (simp_all add: client_post_def)
  have gx: "\<exists>x \<in> set (groups (database forms_fixture)). group_id x = 1"
    by (simp add: forms_fixture_def fresh_state_def)
  have l: "length (posts (database forms_fixture)) = 1"
    by (simp add: forms_fixture_def fresh_state_def)
  obtain s' p where h:
    "post_create forms_fixture ?r = (s', HttpResponseRedirect (''/profile/'' @ username ?u @ ''/''))"
    "length (posts (database s')) = length (posts (database forms_fixture)) + 1"
    "p \<in> set (posts (database s'))" "post_text p = ''Pythonistas''"
    "post_group p = Some 1" "image p = ''posts/'' @ file_name ?f"
    using post_create_adds_one[OF u m t g py_int_str_1 gx f] by blast
  have "post_create forms_fixture ?r = (s', HttpResponseRedirect ''/profile/Author/'') \<and>
     length (posts (database s')) = 2 \<and>
     p \<in> set (posts (database s')) \<and>
     post_text p = ''Pythonistas'' \<and> post_group p = Some 1 \<and>
     image p = ''posts/small.gif''"
    using h l by simp
  then show ?thesis by blast
qed


lemma str_nat_1: "str_nat 1 = ''1''"
  by code_simp

text \<open>\<^verbatim>\<open>test_post_edit_for_authorized\<close>: another user asks for the edit page of post 1.\<close>

theorem post_edit_only_for_author_witness:
  "post_edit 1 urls_fixture
     (client_get (Some \<lparr>user_id = 2, username = ''Somebody''\<rparr>) ''/posts/1/edit/'' Map.empty) =
     (urls_fixture, HttpResponseRedirect ''/posts/1/'') \<and>
   (\<exists>p. post_edit 1 urls_fixture
     (client_get (Some \<lparr>user_id = 1, username = ''Author''\<rparr>) ''/posts/1/edit/'' Map.empty) =
     (urls_fixture, FormResponse ''posts/create_post.html'' (Some p) []) \<and>
     author p = 1 \<and> post_id p = 1)"
proof -
  let ?u = "\<lparr>user_id = 2, username = ''Somebody''\<rparr>"
  let ?a = "\<lparr>user_id = 1, username = ''Author''\<rparr>"
  let ?r = "client_get (Some ?u) ''/posts/1/edit/'' Map.empty"
  let ?ra = "client_get (Some ?a) ''/posts/1/edit/'' Map.empty"
  let ?p = "\<lparr>post_id = 1, post_text = ''post'', pub_date = 1, author = 1,
                  post_group = None, image = []\<rparr>"
  have a: "user ?r = Some ?u \<and>
           find (\<lambda>q. post_id q = 1) (posts (database urls_fixture)) = Some ?p \<and>
           author ?p \<noteq> user_id ?u"
    by (simp add: client_get_def urls_fixture_def fresh_state_def)
  have "post_edit 1 urls_fixture ?r =
          (urls_fixture, HttpResponseRedirect (''/posts/'' @ str_nat 1 @ ''/''))"
    using post_edit_only_for_author[of ?r 1 urls_fixture] a by blast
  then have one: "post_edit 1 urls_fixture ?r =
          (urls_fixture, HttpResponseRedirect ''/posts/1/'')"
    unfolding str_nat_1 by simp
  have f: "find (\<lambda>q. post_id q = 1) (posts (database urls_fixture)) = Some ?p"
    by (simp add: urls_fixture_def fresh_state_def)
  have form: "post_edit 1 urls_fixture ?ra =
     (urls_fixture, FormResponse ''posts/create_post.html'' (Some ?p) [])"
    using f
    by (simp add: post_edit_def login_required_def post_edit_view_def reverse_post_detail
        client_get_def del: str_nat.simps)
  obtain u p where up: "user ?ra = Some u"
    "find (\<lambda>q. post_id q = 1) (posts (database urls_fixture)) = Some p"
    "author p = user_id u" "Some ?p = Some p"
    using post_edit_only_for_author[of ?ra 1 urls_fixture] form by blast
  have "author ?p = 1 \<and> post_id ?p = 1" using up by (auto simp: client_get_def)
  then show ?thesis using one form by blast
qed

text \<open>A newcomer signs up with matching passwords.\<close>

theorem signup_redirects_home_witness:
  "snd (SignUp scenario_form urls_fixture
     (client_post None ''/auth/signup/''
        [''username'' \<mapsto> ''newcomer'', ''password1'' \<mapsto> ''k3v-Rw9qPz7x'',
         ''password2'' \<mapsto> ''k3v-Rw9qPz7x''] Map.empty)) = HttpResponseRedirect ''/''"
proof -
  let ?r = "client_post None ''/auth/signup/''
        [''username'' \<mapsto> ''newcomer'', ''password1'' \<mapsto> ''k3v-Rw9qPz7x'',
         ''password2'' \<mapsto> ''k3v-Rw9qPz7x''] Map.empty"
  have m: "req_method ?r = HttpPost" by (simp add: client_post_def)
  have v: "form_errors (CreationForm scenario_form) (database urls_fixture) (POST ?r) = []"
    by (simp add: CreationForm_def scenario_form_def form_value_def client_post_def
        urls_fixture_def fresh_state_def ascii_alnum_def)
  show ?thesis using signup_redirects_home[OF m v] by simp
qed

text \<open>The new post of the author, in the feed of the follower and of the other user.\<close>

theorem follow_feed_iff_following_witness:
  "\<lparr>post_id = 2, post_text = ''new post'', pub_date = 2, author = 1,
     post_group = None, image = []\<rparr> \<in> set (follow_queryset follow_fixture 2) \<and>
   \<lparr>post_id = 2, post_text = ''new post'', pub_date = 2, author = 1,
     post_group = None, image = []\<rparr> \<notin> set (follow_queryset follow_fixture 3) \<and>
   (\<exists>pg. response_page (snd (follow_index follow_state
        (client_get (Some \<lparr>user_id = 2, username = ''follower''\<rparr>) ''/follow/'' Map.empty))) =
        Some pg \<and>
      \<lparr>post_id = 2, post_text = ''new post'', pub_date = 2, author = 1,
        post_group = None, image = []\<rparr> \<in> set (page_object_list pg)) \<and>
   (\<exists>pg. response_page (snd (follow_index follow_state
        (client_get (Some \<lparr>user_id = 3, username = ''not_yet_follower''\<rparr>) ''/follow/''
           Map.empty))) = Some pg \<and>
      \<lparr>post_id = 2, post_text = ''new post'', pub_date = 2, author = 1,
        post_group = None, image = []\<rparr> \<notin> set (page_object_list pg))"
proof -
  let ?p = "\<lparr>post_id = 2, post_text = ''new post'', pub_date = 2, author = 1,
     post_group = None, image = []\<rparr>"
  let ?u2 = "\<lparr>user_id = 2, username = ''follower''\<rparr>"
  let ?u3 = "\<lparr>user_id = 3, username = ''not_yet_follower''\<rparr>"
  let ?r2 = "client_get (Some ?u2) ''/follow/'' Map.empty"
  let ?r3 = "client_get (Some ?u3) ''/follow/'' Map.empty"
  have p: "?p \<in> set (posts follow_fixture)" by (simp add: follow_fixture_def)
  have y: "\<exists>f \<in> set (follows follow_fixture). follow_user f = 2 \<and> follow_author f = author ?p"
    by (simp add: follow_fixture_def)
  have n: "\<not> (\<exists>f \<in> set (follows follow_fixture). follow_user f = 3 \<and> follow_author f = author ?p)"
    by (simp add: follow_fixture_def)
  have a: "?p \<in> set (follow_queryset follow_fixture 2)"
    using follow_feed_iff_following[OF p, of 2] y by blast
  have b: "?p \<notin> set (follow_queryset follow_fixture 3)"
    using follow_feed_iff_following[OF p, of 3] n by blast
  have len: "length (follow_queryset follow_fixture 2) \<le> 10"
    by (simp add: follow_queryset_def follow_fixture_def newest_first_def is_following_def)
  have h2: "database follow_state = follow_fixture \<and> user ?r2 = Some ?u2 \<and> user_id ?u2 = 2 \<and>
            GET ?r2 ''page'' = None"
    by (simp add: follow_state_def fresh_state_def client_get_def)
  have c: "\<exists>pg. response_page (snd (follow_index follow_state ?r2)) = Some pg \<and>
                ?p \<in> set (page_object_list pg)"
    using follow_feed_iff_following[OF p, of 2] h2 len y by blast
  have h3: "database follow_state = follow_fixture \<and> user ?r3 = Some ?u3 \<and> user_id ?u3 = 3"
    by (simp add: follow_state_def fresh_state_def client_get_def)
  obtain pg3 where pg3: "get_page_obj ?r3 (follow_queryset follow_fixture 3) = Inr pg3"
    using get_page_obj_total by blast
  have rp: "response_page (snd (follow_index follow_state ?r3)) = Some pg3"
    using pg3 h3
    by (simp add: follow_index_def login_required_def follow_index_view_def
        list_response_def response_page_def)
  have "?p \<notin> set (page_object_list pg3)"
    using follow_feed_iff_following[OF p, of 3] h3 rp n by blast
  then have d: "\<exists>pg. response_page (snd (follow_index follow_state ?r3)) = Some pg \<and>
                ?p \<notin> set (page_object_list pg)"
    using rp by blast
  show ?thesis using a b c d by blast
qed

lemma cache_fixture_first_page:
  "get_page_obj (client_get u ''/'' Map.empty) (index_queryset (database cache_fixture)) = Inr pg
   \<Longrightarrow> \<exists>p \<in> set (shown (render pg)). post_id p = 4"
  using get_page_first[OF query_get_missing[of Map.empty "''page''" test_interpreter],
      of "index_queryset (database cache_fixture)"]
  by (auto simp: get_page_obj_def client_get_def render_def index_queryset_def
      newest_first_def cache_fixture_def fresh_state_def pages_fixture_def)

text \<open>\<^verbatim>\<open>test_cache_index_page\<close>: render, delete post 4, request again, clear, request.\<close>

theorem cached_home_page_is_stale_witness:
  "response_content (snd (index
      (advance 0 (delete_post 4 (advance 0
         (fst (index cache_fixture
            (client_get (Some \<lparr>user_id = 2, username = ''Noname''\<rparr>) ''/'' Map.empty))))))
      (client_get (Some \<lparr>user_id = 2, username = ''Noname''\<rparr>) ''/'' Map.empty))) =
   response_content (snd (index cache_fixture
      (client_get (Some \<lparr>user_id = 2, username = ''Noname''\<rparr>) ''/'' Map.empty))) \<and>
   response_content (snd (index
      (cache_clear (advance 0 (delete_post 4 (advance 0
         (fst (index cache_fixture
            (client_get (Some \<lparr>user_id = 2, username = ''Noname''\<rparr>) ''/'' Map.empty)))))))
      (client_get (Some \<lparr>user_id = 2, username = ''Noname''\<rparr>) ''/'' Map.empty))) \<noteq>
   response_content (snd (index cache_fixture
      (client_get (Some \<lparr>user_id = 2, username = ''Noname''\<rparr>) ''/'' Map.empty))) \<and>
   response_content (snd (index
      (advance 15 (delete_post 4 (advance 5
         (fst (index cache_fixture
            (client_get (Some \<lparr>user_id = 2, username = ''Noname''\<rparr>) ''/'' Map.empty))))))
      (client_get (Some \<lparr>user_id = 2, username = ''Noname''\<rparr>) ''/'' Map.empty))) \<noteq>
   response_content (snd (index cache_fixture
      (client_get (Some \<lparr>user_id = 2, username = ''Noname''\<rparr>) ''/'' Map.empty)))"
proof -
  let ?r = "client_get (Some \<lparr>user_id = 2, username = ''Noname''\<rparr>) ''/'' Map.empty"
  let ?s2 = "advance 0 (delete_post 4 (advance 0 (fst (index cache_fixture ?r))))"
  let ?s3 = "advance 15 (delete_post 4 (advance 5 (fst (index cache_fixture ?r))))"
  have miss: "cache_get cache_fixture (path ?r, GET ?r ''page'') = None"
    by (simp add: cache_get_def cache_fixture_def fresh_state_def)
  obtain pg0 pg2 where h:
    "get_page_obj ?r (index_queryset (database cache_fixture)) = Inr pg0"
    "response_content (snd (index cache_fixture ?r)) = Some (render pg0)"
    "(0::nat) + 0 < 20 \<longrightarrow> response_content (snd (index ?s2 ?r)) = Some (render pg0)"
    "response_content (snd (index (cache_clear ?s2) ?r)) = Some (render pg2)"
    "(\<exists>p \<in> set (shown (render pg0)). post_id p = 4) \<longrightarrow> render pg2 \<noteq> render pg0"
    using cached_home_page_is_stale[OF miss, of 0 4 0] by blast
  have shown0: "\<exists>p \<in> set (shown (render pg0)). post_id p = 4"
    by (rule cache_fixture_first_page[OF h(1)])
  have one: "render pg2 \<noteq> render pg0"
    using h(5) shown0 by blast
  obtain pg0' pg3 where k:
    "get_page_obj ?r (index_queryset (database cache_fixture)) = Inr pg0'"
    "(5::nat) + 15 \<ge> 20 \<longrightarrow> response_content (snd (index ?s3 ?r)) = Some (render pg3)"
    "(\<exists>p \<in> set (shown (render pg0')). post_id p = 4) \<longrightarrow> render pg3 \<noteq> render pg0'"
    using cached_home_page_is_stale[OF miss, of 15 4 5] by blast
  have same: "pg0' = pg0" using h(1) k(1) by simp
  have two: "response_content (snd (index ?s3 ?r)) = Some (render pg3)" "render pg3 \<noteq> render pg0"
    using k(2,3) shown0 same by simp_all
  show ?thesis using h(2,3,4) one two by simp
qed

end
